theory Spec2Isabelle
  imports Main "HOL-Library.AList" "HOL-Library.List_Lexorder"
begin

section \<open>Strings\<close>

text \<open>
  A JavaScript string is a sequence of UTF-16 code units, and every operation of
  \<^verbatim>\<open>scripts/convert-terminologies.ts\<close> (\<^verbatim>\<open>startsWith\<close>, the regular expressions,
  \<^verbatim>\<open>trim\<close>) works on code units. A string is therefore a list of code units, each a
  natural number; \<open>js ''abc''\<close> is the string with the code units of the ASCII text.
\<close>

type_synonym jsstring = "nat list"

definition js :: "string \<Rightarrow> jsstring" where
  "js s = map of_char s"

definition startsWith :: "jsstring \<Rightarrow> jsstring \<Rightarrow> bool" where
  "startsWith s p = (take (length p) s = p)"

definition isDigit :: "nat \<Rightarrow> bool" where
  "isDigit c = (48 \<le> c \<and> c \<le> 57)"

definition isUpper :: "nat \<Rightarrow> bool" where
  "isUpper c = (65 \<le> c \<and> c \<le> 90)"

definition isLower :: "nat \<Rightarrow> bool" where
  "isLower c = (97 \<le> c \<and> c \<le> 122)"

text \<open>
  The class \<^verbatim>\<open>\s\<close> of a regular expression, which is also what \<^verbatim>\<open>trim\<close> removes: tab,
  line feed, vertical tab, form feed, carriage return, space, U+00A0, U+1680, U+2000 to
  U+200A, U+2028, U+2029, U+202F, U+205F, U+3000 and U+FEFF.
\<close>

definition isWhiteSpace :: "nat \<Rightarrow> bool" where
  "isWhiteSpace c =
     (c = 9 \<or> c = 10 \<or> c = 11 \<or> c = 12 \<or> c = 13 \<or> c = 32 \<or> c = 160 \<or> c = 5760
      \<or> (8192 \<le> c \<and> c \<le> 8202) \<or> c = 8232 \<or> c = 8233 \<or> c = 8239 \<or> c = 8287
      \<or> c = 12288 \<or> c = 65279)"

text \<open>
  \<^verbatim>\<open>toLowerCase\<close> and \<^verbatim>\<open>toUpperCase\<close> are the platform's Unicode case mappings. The
  model carries the mapping of the code units up to U+00FF (ASCII and Latin-1) and passes
  every other code unit through, where the platform also maps the letters beyond
  U+00FF. \<^verbatim>\<open>displayToSlug\<close> lowers a string that holds only ASCII letters, digits and
  hyphens at that point (\<open>slug_units_ascii\<close>), so the model is exact there, and with it
  the code derivation. A letter beyond U+00FF can reach \<^verbatim>\<open>toKebabCase\<close> (the source file
  of a mapping entry), \<^verbatim>\<open>generateDefinition\<close>, the name, title and description of a new
  code system and the display match of \<^verbatim>\<open>enrichWithCodeList\<close>: the statements below hold
  for those whatever the case mapping is, and evaluate it on ASCII text only.
\<close>

definition lowerUnit :: "nat \<Rightarrow> nat" where
  "lowerUnit c =
     (if isUpper c then c + 32
      else if 192 \<le> c \<and> c \<le> 222 \<and> c \<noteq> 215 then c + 32
      else c)"

definition toLowerCase :: "jsstring \<Rightarrow> jsstring" where
  "toLowerCase s = map lowerUnit s"

definition upperUnit :: "nat \<Rightarrow> jsstring" where
  "upperUnit c =
     (if isLower c then [c - 32]
      else if c = 181 then [924]
      else if c = 223 then [83, 83]
      else if c = 255 then [376]
      else if 224 \<le> c \<and> c \<le> 254 \<and> c \<noteq> 247 then [c - 32]
      else [c])"

text \<open>\<^verbatim>\<open>s.trim()\<close>.\<close>

definition trim :: "jsstring \<Rightarrow> jsstring" where
  "trim s = rev (dropWhile isWhiteSpace (rev (dropWhile isWhiteSpace s)))"

text \<open>
  \<^verbatim>\<open>s.replace(/pat/g, rep)\<close> for a literal, non-empty pattern: the occurrences are
  replaced from left to right and the scan goes on after each match.
\<close>

function replaceAll :: "jsstring \<Rightarrow> jsstring \<Rightarrow> jsstring \<Rightarrow> jsstring" where
  "replaceAll pat rep [] = []"
| "replaceAll pat rep (c # cs) =
     (if pat \<noteq> [] \<and> startsWith (c # cs) pat
      then rep @ replaceAll pat rep (drop (length pat) (c # cs))
      else c # replaceAll pat rep cs)"
  by pat_completeness auto
termination
  by (relation "measure (\<lambda>(pat, rep, s). length s)") (auto simp: neq_Nil_conv)

text \<open>
  \<^verbatim>\<open>s.replace(/[class]+/g, "-")\<close>: every maximal run of code units of the class becomes
  one hyphen.
\<close>

function collapseRuns :: "(nat \<Rightarrow> bool) \<Rightarrow> jsstring \<Rightarrow> jsstring" where
  "collapseRuns P [] = []"
| "collapseRuns P (c # cs) =
     (if P c then 45 # collapseRuns P (dropWhile P cs) else c # collapseRuns P cs)"
  by pat_completeness auto
termination
  by (relation "measure (\<lambda>(P, s). length s)")
     (auto simp: length_dropWhile_le less_Suc_eq_le)

text \<open>\<^verbatim>\<open>s.replace(/^-|-$/g, "")\<close>: one leading and one trailing hyphen go.\<close>

definition stripEdgeHyphens :: "jsstring \<Rightarrow> jsstring" where
  "stripEdgeHyphens s =
     (let t = (case s of [] \<Rightarrow> [] | c # cs \<Rightarrow> if c = 45 then cs else s)
      in if t \<noteq> [] \<and> last t = 45 then butlast t else t)"

text \<open>\<^verbatim>\<open>s.split("-")\<close> and \<^verbatim>\<open>parts.join(sep)\<close>.\<close>

fun splitOn :: "nat \<Rightarrow> jsstring \<Rightarrow> jsstring list" where
  "splitOn d [] = [[]]"
| "splitOn d (c # cs) =
     (if c = d then [] # splitOn d cs
      else (case splitOn d cs of [] \<Rightarrow> [[c]] | x # xs \<Rightarrow> (c # x) # xs))"

fun joinWith :: "jsstring \<Rightarrow> jsstring list \<Rightarrow> jsstring" where
  "joinWith sep [] = []"
| "joinWith sep [x] = x"
| "joinWith sep (x # y # ys) = x @ sep @ joinWith sep (y # ys)"

section \<open>Helpers\<close>

text \<open>
  \<^verbatim>\<open>toKebabCase\<close>. Its first replacement, \<^verbatim>\<open>/([a-z0-9])([A-Z])/g\<close> by \<^verbatim>\<open>"$1-$2"\<close>, puts a
  hyphen between a lower-case letter or digit and the capital that follows it.
\<close>

fun hyphenLowerUpper :: "jsstring \<Rightarrow> jsstring" where
  "hyphenLowerUpper (a # b # r) =
     (if (isLower a \<or> isDigit a) \<and> isUpper b then a # 45 # b # hyphenLowerUpper r
      else a # hyphenLowerUpper (b # r))"
| "hyphenLowerUpper s = s"

text \<open>
  Its second replacement, \<^verbatim>\<open>/([A-Z]+)([A-Z][a-z])/g\<close> by \<^verbatim>\<open>"$1-$2"\<close>: a run of at least two
  capitals followed by a lower-case letter gets a hyphen before its last capital. A run
  that is shorter, or followed by anything else, matches at none of its positions.
\<close>

function hyphenAcronym :: "jsstring \<Rightarrow> jsstring" where
  "hyphenAcronym [] = []"
| "hyphenAcronym (c # cs) =
     (if isUpper c
      then (let run = c # takeWhile isUpper cs; rest = dropWhile isUpper cs
            in case rest of
                 [] \<Rightarrow> run
               | l # rest' \<Rightarrow>
                   if isLower l \<and> 2 \<le> length run
                   then butlast run @ [45, last run, l] @ hyphenAcronym rest'
                   else run @ hyphenAcronym rest)
      else c # hyphenAcronym cs)"
  by pat_completeness auto
termination
proof (relation "measure length")
  show "wf (measure length)" by simp
next
  fix c :: nat and cs run rest l rest'
  assume "rest = dropWhile isUpper cs" "rest = l # rest'"
  then have "length (l # rest') \<le> length cs"
    by (metis length_dropWhile_le)
  then show "(rest', c # cs) \<in> measure length" by simp
next
  fix c :: nat and cs run rest l rest'
  assume "rest = dropWhile isUpper cs"
  then have "length rest \<le> length cs"
    by (simp add: length_dropWhile_le)
  then show "(rest, c # cs) \<in> measure length" by simp
next
  fix c :: nat and cs
  show "(cs, c # cs) \<in> measure length" by simp
qed

definition toKebabCase :: "jsstring \<Rightarrow> jsstring" where
  "toKebabCase name =
     toLowerCase
       (collapseRuns (\<lambda>c. isWhiteSpace c \<or> c = 95)
          (hyphenAcronym (hyphenLowerUpper name)))"

text \<open>\<^verbatim>\<open>s.charAt(0).toUpperCase() + s.slice(1)\<close>, shared by the next two helpers.\<close>

definition capitalize :: "jsstring \<Rightarrow> jsstring" where
  "capitalize s = (case s of [] \<Rightarrow> [] | c # cs \<Rightarrow> upperUnit c @ cs)"

definition toPascalCase :: "jsstring \<Rightarrow> jsstring" where
  "toPascalCase kebab = joinWith [] (map capitalize (splitOn 45 kebab))"

definition toTitle :: "jsstring \<Rightarrow> jsstring" where
  "toTitle kebab = joinWith [32] (map capitalize (splitOn 45 kebab))"

text \<open>
  \<^verbatim>\<open>displayToSlug\<close>, one definition per replacement of the chain:
  \<^verbatim>\<open>&amp;\<close> and \<^verbatim>\<open>&\<close> become \<^verbatim>\<open>and\<close>, apostrophes go, every code unit outside
  \<^verbatim>\<open>[a-zA-Z0-9\s-]\<close> becomes a space, white space runs become a hyphen, the string is
  lowered, hyphen runs collapse and the edge hyphens go.
\<close>

definition replaceAmpersand :: "jsstring \<Rightarrow> jsstring" where
  "replaceAmpersand s = concat (map (\<lambda>c. if c = 38 then js ''and'' else [c]) s)"

definition dropApostrophes :: "jsstring \<Rightarrow> jsstring" where
  "dropApostrophes s = filter (\<lambda>c. c \<noteq> 39) s"

definition blankPunctuation :: "jsstring \<Rightarrow> jsstring" where
  "blankPunctuation s =
     map (\<lambda>c. if isLower c \<or> isUpper c \<or> isDigit c \<or> isWhiteSpace c \<or> c = 45
              then c else 32) s"

definition displayToSlug :: "jsstring \<Rightarrow> jsstring" where
  "displayToSlug display =
     stripEdgeHyphens
       (collapseRuns (\<lambda>c. c = 45)
          (toLowerCase
             (collapseRuns isWhiteSpace
                (blankPunctuation
                   (dropApostrophes
                      (replaceAmpersand
                         (replaceAll (js ''&amp;'') (js ''and'') display)))))))"

text \<open>
  \<^verbatim>\<open>stripPrefix\<close>. \<open>replacePrefix\<close> is the loop body
  \<^verbatim>\<open>result.replace(/^(?:csio|acord):/, "")\<close>, \<open>stripPrefix_while\<close> is the loop as it is
  written, a computation that may or may not return, and \<open>stripPrefix\<close> is the same
  recursion with its termination proof; the rest of the development uses the latter.
\<close>

definition hasPrefix :: "jsstring \<Rightarrow> bool" where
  "hasPrefix s = (startsWith s (js ''csio:'') \<or> startsWith s (js ''acord:''))"

definition replacePrefix :: "jsstring \<Rightarrow> jsstring" where
  "replacePrefix s =
     (if startsWith s (js ''csio:'') then drop 5 s
      else if startsWith s (js ''acord:'') then drop 6 s
      else s)"

partial_function (option) stripPrefix_while :: "jsstring \<Rightarrow> jsstring option" where
  "stripPrefix_while result =
     (if hasPrefix result then stripPrefix_while (replacePrefix result) else Some result)"

lemma startsWith_length: "startsWith s p \<Longrightarrow> length p \<le> length s"
proof -
  assume "startsWith s p"
  then have "length (take (length p) s) = length p"
    by (simp add: startsWith_def)
  then show ?thesis by simp
qed

lemma replacePrefix_shorter: "hasPrefix s \<Longrightarrow> length (replacePrefix s) < length s"
proof -
  assume h: "hasPrefix s"
  have a: "startsWith s (js ''csio:'') \<Longrightarrow> 5 \<le> length s"
    using startsWith_length [of s "js ''csio:''"] by (simp add: js_def)
  have b: "startsWith s (js ''acord:'') \<Longrightarrow> 6 \<le> length s"
    using startsWith_length [of s "js ''acord:''"] by (simp add: js_def)
  from h a b show ?thesis
    unfolding hasPrefix_def replacePrefix_def by auto
qed

function stripPrefix :: "jsstring \<Rightarrow> jsstring" where
  "stripPrefix result =
     (if hasPrefix result then stripPrefix (replacePrefix result) else result)"
  by pat_completeness auto
termination
  by (relation "measure length") (auto simp: replacePrefix_shorter)

declare stripPrefix.simps [simp del]

text \<open>\<^verbatim>\<open>isNumericOnly\<close>: \<^verbatim>\<open>/^\d+$/\<close>.\<close>

definition isNumericOnly :: "jsstring \<Rightarrow> bool" where
  "isNumericOnly code = (code \<noteq> [] \<and> list_all isDigit code)"

text \<open>
  \<^verbatim>\<open>cleanDisplay\<close>. Both regular expressions are anchored and case-insensitive. Without
  the \<^verbatim>\<open>u\<close> flag a capital ASCII letter of the pattern matches itself and its lower-case
  letter only, and U+00C9 matches itself and U+00E9: in each case the code unit of the
  pattern or that code unit plus 32. \<open>stripMarker pat\<close> removes the marker and the
  white space after it.
\<close>

definition matchesIgnoreCase :: "jsstring \<Rightarrow> jsstring \<Rightarrow> bool" where
  "matchesIgnoreCase pat s = list_all2 (\<lambda>p c. c = p \<or> c = p + 32) pat s"

definition stripMarker :: "jsstring \<Rightarrow> jsstring \<Rightarrow> jsstring" where
  "stripMarker pat s =
     (if matchesIgnoreCase pat (take (length pat) s)
      then dropWhile isWhiteSpace (drop (length pat) s)
      else s)"

definition DEPRECATED :: jsstring where
  "DEPRECATED = js ''DEPRECATED''"

definition DESUET :: jsstring where
  "DESUET = [68, 201, 83, 85, 69, 84]"

definition cleanDisplay :: "jsstring \<Rightarrow> jsstring" where
  "cleanDisplay display = trim (stripMarker DESUET (stripMarker DEPRECATED display))"

text \<open>
  \<^verbatim>\<open>generateDefinition\<close>: the clean display, an em dash (U+2014) between spaces, the
  lowered title and \<^verbatim>\<open>" code."\<close>.
\<close>

definition generateDefinition :: "jsstring \<Rightarrow> jsstring \<Rightarrow> jsstring" where
  "generateDefinition display codeSystemTitle =
     cleanDisplay display @ [32, 8212, 32] @ toLowerCase codeSystemTitle @ js '' code.''"

text \<open>
  \<^verbatim>\<open>deriveBINDCode\<close>. The display is optional; \<^verbatim>\<open>&& display\<close> holds for a display that
  is present and not empty, and \<^verbatim>\<open>slug || stripped\<close> takes the slug unless it is empty.
\<close>

definition truthy :: "jsstring option \<Rightarrow> bool" where
  "truthy d = (case d of None \<Rightarrow> False | Some s \<Rightarrow> s \<noteq> [])"

definition deriveBINDCode :: "jsstring \<Rightarrow> jsstring option \<Rightarrow> jsstring" where
  "deriveBINDCode sourceCode display =
     (let stripped = stripPrefix sourceCode
      in if isNumericOnly stripped \<and> truthy display
         then (let slug = displayToSlug (cleanDisplay (the display))
               in if slug \<noteq> [] then slug else stripped)
         else stripped)"

section \<open>Types\<close>

text \<open>
  The interfaces of the script as records. Every field carries a prefix, since several
  interfaces have a \<^verbatim>\<open>code\<close> and a \<^verbatim>\<open>display\<close>. An optional field is an \<open>option\<close>.
  Of \<^verbatim>\<open>CodeListCode\<close> and \<^verbatim>\<open>CodeListFile\<close> the records keep the fields the script reads
  (\<^verbatim>\<open>owner\<close>, \<^verbatim>\<open>sub_code_list\<close>, \<^verbatim>\<open>revision\<close> and the counters of the file are never
  read). \<^verbatim>\<open>resourceType\<close> is the constant \<^verbatim>\<open>"CodeSystem"\<close> and is left out.
\<close>

record TopLevelEntry =
  tle_code :: jsstring
  tle_display :: "jsstring option"

record CodeListCode =
  clc_code :: jsstring
  clc_display :: jsstring
  clc_display_fr :: "jsstring option"
  clc_deprecated :: "bool option"

record CodeListFile =
  code_list_name :: jsstring
  codes :: "CodeListCode list"

record Designation =
  dsg_language :: jsstring
  dsg_value :: jsstring

record BindConcept =
  cpt_code :: jsstring
  cpt_display :: jsstring
  cpt_definition :: jsstring
  cpt_designation :: "Designation list option"

datatype Status = Draft | Active | Retired | Unknown

record BindCodeSystem =
  cs_id :: jsstring
  cs_url :: jsstring
  cs_name :: jsstring
  cs_title :: jsstring
  cs_status :: Status
  cs_language :: "jsstring option"
  cs_description :: jsstring
  cs_concept :: "BindConcept list"

record MappingEntry =
  bindCode :: jsstring
  sourceCode :: jsstring
  sourceFile :: jsstring
  codeSystemId :: jsstring

section \<open>Building a code system\<close>

text \<open>
  A JavaScript \<^verbatim>\<open>Map\<close> keeps its keys in insertion order and \<^verbatim>\<open>set\<close> on a key that is
  present replaces the value where it stands: an association list with \<open>AList.update\<close>.
  A \<^verbatim>\<open>Set\<close> of strings is a set.

  Truthiness: \<^verbatim>\<open>code.deprecated\<close> holds when the flag is present and true.
\<close>

definition flagged :: "CodeListCode \<Rightarrow> bool" where
  "flagged code = (clc_deprecated code = Some True)"

text \<open>
  The first loop of \<^verbatim>\<open>buildFromCodeList\<close>: one step per code of the code list, on the
  map \<^verbatim>\<open>seenCodes\<close>.
\<close>

definition seenStepCL ::
  "(jsstring \<times> CodeListCode) list \<Rightarrow> CodeListCode \<Rightarrow> (jsstring \<times> CodeListCode) list" where
  "seenStepCL seenCodes code =
     (let bindCode = deriveBINDCode (clc_code code) (Some (clc_display code))
      in case map_of seenCodes bindCode of
           None \<Rightarrow> AList.update bindCode code seenCodes
         | Some existing \<Rightarrow>
             if flagged existing \<and> \<not> flagged code
                \<and> \<not> startsWith (clc_display code) DEPRECATED
             then AList.update bindCode code seenCodes
             else seenCodes)"

definition seenCodesCL :: "CodeListCode list \<Rightarrow> (jsstring \<times> CodeListCode) list" where
  "seenCodesCL cs = foldl seenStepCL [] cs"

text \<open>The first loop of \<^verbatim>\<open>buildFromTopLevel\<close>.\<close>

definition markedTL :: "TopLevelEntry \<Rightarrow> bool" where
  "markedTL entry =
     (case tle_display entry of None \<Rightarrow> False | Some d \<Rightarrow> startsWith d DEPRECATED)"

definition seenStepTL ::
  "(jsstring \<times> TopLevelEntry) list \<Rightarrow> TopLevelEntry \<Rightarrow> (jsstring \<times> TopLevelEntry) list" where
  "seenStepTL seenCodes entry =
     (let bindCode = deriveBINDCode (tle_code entry) (tle_display entry)
      in case map_of seenCodes bindCode of
           None \<Rightarrow> AList.update bindCode entry seenCodes
         | Some existing \<Rightarrow>
             if markedTL existing \<and> truthy (tle_display entry) \<and> \<not> markedTL entry
             then AList.update bindCode entry seenCodes
             else seenCodes)"

definition seenCodesTL :: "TopLevelEntry list \<Rightarrow> (jsstring \<times> TopLevelEntry) list" where
  "seenCodesTL es = foldl seenStepTL [] es"

text \<open>The mapping entry each builder pushes, and the concept it builds.\<close>

definition mappingCL :: "jsstring \<Rightarrow> CodeListFile \<Rightarrow> jsstring \<times> CodeListCode \<Rightarrow> MappingEntry" where
  "mappingCL csId cl w =
     \<lparr>bindCode = fst w, sourceCode = clc_code (snd w),
      sourceFile = js ''code-lists/'' @ toKebabCase (code_list_name cl) @ js ''.json'',
      codeSystemId = csId\<rparr>"

definition mappingTL :: "jsstring \<Rightarrow> jsstring \<times> TopLevelEntry \<Rightarrow> MappingEntry" where
  "mappingTL csId w =
     \<lparr>bindCode = fst w, sourceCode = tle_code (snd w),
      sourceFile = csId @ js ''.json'', codeSystemId = csId\<rparr>"

definition frenchDesignation :: "jsstring option \<Rightarrow> Designation list option" where
  "frenchDesignation display_fr =
     (if truthy display_fr \<and> cleanDisplay (the display_fr) \<noteq> []
      then Some [\<lparr>dsg_language = js ''fr-CA'', dsg_value = cleanDisplay (the display_fr)\<rparr>]
      else None)"

definition conceptCL :: "jsstring \<Rightarrow> jsstring \<times> CodeListCode \<Rightarrow> BindConcept" where
  "conceptCL title w =
     \<lparr>cpt_code = fst w, cpt_display = cleanDisplay (clc_display (snd w)),
      cpt_definition = generateDefinition (clc_display (snd w)) title,
      cpt_designation = frenchDesignation (clc_display_fr (snd w))\<rparr>"

definition conceptTL :: "jsstring \<Rightarrow> jsstring \<times> TopLevelEntry \<Rightarrow> BindConcept" where
  "conceptTL title w =
     \<lparr>cpt_code = fst w, cpt_display = cleanDisplay (the (tle_display (snd w))),
      cpt_definition = generateDefinition (the (tle_display (snd w))) title,
      cpt_designation = None\<rparr>"

text \<open>
  The second loop of each builder. Its state is \<^verbatim>\<open>newConcepts\<close>, \<^verbatim>\<open>newBindCodes\<close> and the
  module-level array \<^verbatim>\<open>mappings\<close>; a step handles one entry of \<^verbatim>\<open>seenCodes\<close>.
\<close>

type_synonym loopState = "BindConcept list \<times> jsstring set \<times> MappingEntry list"

definition deprecatedCL :: "CodeListCode \<Rightarrow> bool" where
  "deprecatedCL code = (flagged code \<or> startsWith (clc_display code) DEPRECATED)"

definition conceptStepCL ::
  "jsstring \<Rightarrow> CodeListFile \<Rightarrow> jsstring set \<Rightarrow> loopState \<Rightarrow> jsstring \<times> CodeListCode
     \<Rightarrow> loopState" where
  "conceptStepCL csId cl existingCodes st w =
     (case st of (newConcepts, newBindCodes, mappings) \<Rightarrow>
        if deprecatedCL (snd w)
        then (newConcepts, newBindCodes, mappings @ [mappingCL csId cl w])
        else if fst w \<in> existingCodes \<or> fst w \<in> newBindCodes
        then (newConcepts, newBindCodes, mappings @ [mappingCL csId cl w])
        else (newConcepts @ [conceptCL (toTitle csId) w], insert (fst w) newBindCodes,
              mappings @ [mappingCL csId cl w]))"

definition conceptStepTL ::
  "jsstring \<Rightarrow> jsstring set \<Rightarrow> loopState \<Rightarrow> jsstring \<times> TopLevelEntry \<Rightarrow> loopState" where
  "conceptStepTL csId existingCodes st w =
     (case st of (newConcepts, newBindCodes, mappings) \<Rightarrow>
        if markedTL (snd w)
        then (newConcepts, newBindCodes, mappings @ [mappingTL csId w])
        else if \<not> truthy (tle_display (snd w))
        then (newConcepts, newBindCodes, mappings)
        else if fst w \<in> existingCodes \<or> fst w \<in> newBindCodes
        then (newConcepts, newBindCodes, mappings @ [mappingTL csId w])
        else (newConcepts @ [conceptTL (toTitle csId) w], insert (fst w) newBindCodes,
              mappings @ [mappingTL csId w]))"

text \<open>
  The end of both builders: the existing code system with its language defaulted and
  the new concepts appended, or a fresh code system.
\<close>

definition existingCodesOf :: "BindCodeSystem option \<Rightarrow> jsstring set" where
  "existingCodesOf existingCS =
     (case existingCS of None \<Rightarrow> {} | Some ex \<Rightarrow> set (map cpt_code (cs_concept ex)))"

definition mergeConcepts ::
  "jsstring \<Rightarrow> BindCodeSystem option \<Rightarrow> BindConcept list \<Rightarrow> BindCodeSystem" where
  "mergeConcepts csId existingCS newConcepts =
     (case existingCS of
        Some ex \<Rightarrow>
          ex\<lparr>cs_language := Some (case cs_language ex of None \<Rightarrow> js ''en'' | Some l \<Rightarrow> l),
             cs_concept := cs_concept ex @ newConcepts\<rparr>
      | None \<Rightarrow>
          \<lparr>cs_id = csId, cs_url = js ''https://bind.codes/'' @ csId, cs_name = toPascalCase csId,
           cs_title = toTitle csId, cs_status = Draft, cs_language = Some (js ''en''),
           cs_description = toTitle csId @ js '' codes for insurance operations.'',
           cs_concept = newConcepts\<rparr>)"

text \<open>
  \<^verbatim>\<open>buildFromCodeList\<close> and \<^verbatim>\<open>buildFromTopLevel\<close>. Each takes the array \<^verbatim>\<open>mappings\<close> and
  returns it with what it pushed. \<^verbatim>\<open>buildFromCodeList\<close> fills a map \<^verbatim>\<open>topLevelLookup\<close>
  from its third argument and never reads it, so the argument has no effect.
\<close>

definition buildFromCodeList ::
  "jsstring \<Rightarrow> CodeListFile \<Rightarrow> TopLevelEntry list option \<Rightarrow> BindCodeSystem option
     \<Rightarrow> MappingEntry list \<Rightarrow> BindCodeSystem \<times> MappingEntry list" where
  "buildFromCodeList csId cl topLevelEntries existingCS mappings =
     (case foldl (conceptStepCL csId cl (existingCodesOf existingCS)) ([], {}, mappings)
             (seenCodesCL (codes cl)) of
        (newConcepts, newBindCodes, mappings') \<Rightarrow>
          (mergeConcepts csId existingCS newConcepts, mappings'))"

definition buildFromTopLevel ::
  "jsstring \<Rightarrow> TopLevelEntry list \<Rightarrow> BindCodeSystem option \<Rightarrow> MappingEntry list
     \<Rightarrow> BindCodeSystem \<times> MappingEntry list" where
  "buildFromTopLevel csId entries existingCS mappings =
     (case foldl (conceptStepTL csId (existingCodesOf existingCS)) ([], {}, mappings)
             (seenCodesTL entries) of
        (newConcepts, newBindCodes, mappings') \<Rightarrow>
          (mergeConcepts csId existingCS newConcepts, mappings'))"

text \<open>
  \<^verbatim>\<open>enrichWithCodeList\<close>. \<^verbatim>\<open>lookup\<close> is keyed by the raw code of each code-list entry and
  \<^verbatim>\<open>displayLookup\<close> by its clean, lowered display; in both a later entry replaces an
  earlier one with the same key. The loop assigns a designation to a concept in place;
  the model returns the concept.
\<close>

definition lookupOf :: "CodeListCode list \<Rightarrow> (jsstring \<times> CodeListCode) list" where
  "lookupOf cs = foldl (\<lambda>m code. AList.update (clc_code code) code m) [] cs"

definition displayLookupOf :: "CodeListCode list \<Rightarrow> (jsstring \<times> CodeListCode) list" where
  "displayLookupOf cs =
     foldl (\<lambda>m code.
              if clc_display code \<noteq> []
              then AList.update (toLowerCase (cleanDisplay (clc_display code))) code m
              else m) [] cs"

definition hasDesignation :: "BindConcept \<Rightarrow> bool" where
  "hasDesignation concept =
     (case cpt_designation concept of None \<Rightarrow> False | Some ds \<Rightarrow> 0 < length ds)"

definition enrichConcept ::
  "(jsstring \<times> CodeListCode) list \<Rightarrow> (jsstring \<times> CodeListCode) list \<Rightarrow> BindConcept
     \<Rightarrow> BindConcept" where
  "enrichConcept lookup displayLookup concept =
     (if hasDesignation concept then concept
      else (let clCode = (case map_of lookup (cpt_code concept) of
                            Some c \<Rightarrow> Some c
                          | None \<Rightarrow> map_of displayLookup (toLowerCase (cpt_display concept)))
            in case clCode of
                 None \<Rightarrow> concept
               | Some c \<Rightarrow>
                   (case frenchDesignation (clc_display_fr c) of
                      None \<Rightarrow> concept
                    | Some ds \<Rightarrow> concept\<lparr>cpt_designation := Some ds\<rparr>)))"

definition enrichWithCodeList :: "BindCodeSystem \<Rightarrow> CodeListFile \<Rightarrow> BindCodeSystem" where
  "enrichWithCodeList cs cl =
     cs\<lparr>cs_concept :=
          map (enrichConcept (lookupOf (codes cl)) (displayLookupOf (codes cl)))
            (cs_concept cs)\<rparr>"

section \<open>The run\<close>

text \<open>
  \<^verbatim>\<open>main\<close>. The two readers parse the source directories into \<^verbatim>\<open>topLevelMap\<close> and
  \<^verbatim>\<open>codeListMap\<close>; the model takes the two maps as they come out of the readers. The
  directory \<^verbatim>\<open>codesystems\<close> is a map from an id to the code system of the file
  \<^verbatim>\<open>id.json\<close>, so \<^verbatim>\<open>loadExistingCodeSystem\<close> is a lookup and \<^verbatim>\<open>writeFile\<close> an update.
  A file stands for the value that \<^verbatim>\<open>JSON.parse\<close> reads from it: \<^verbatim>\<open>JSON.stringify\<close>
  is a function of the value and the order of its keys, which a merge keeps, and a file
  that does not parse ends the run with an exception, which the model leaves out. The
  state of the loop over the ids is the directory, the array \<^verbatim>\<open>mappings\<close> and the three
  counters; the log lines and the entry for \<^verbatim>\<open>.gitignore\<close> are left out.
\<close>

record RunState =
  disk :: "jsstring \<Rightarrow> BindCodeSystem option"
  mappings :: "MappingEntry list"
  created :: nat
  merged :: nat
  skipped :: nat

text \<open>
  The loop of the second branch of \<^verbatim>\<open>main\<close>, over the entries of \<^verbatim>\<open>codeListMap\<close>: the
  first entry whose key is the id enriches the code system, and the loop ends there.
\<close>

definition enrichById ::
  "(jsstring \<times> CodeListFile) list \<Rightarrow> jsstring \<Rightarrow> BindCodeSystem \<Rightarrow> BindCodeSystem" where
  "enrichById codeListMap csId cs =
     (case find (\<lambda>kv. fst kv = csId) codeListMap of
        Some kv \<Rightarrow> enrichWithCodeList cs (snd kv)
      | None \<Rightarrow> cs)"

text \<open>
  The body of the loop over the ids up to the code system \<^verbatim>\<open>cs\<close>: \<open>None\<close> is the
  \<^verbatim>\<open>continue\<close> of the last branch.
\<close>

definition buildCS ::
  "(jsstring \<times> TopLevelEntry list) list \<Rightarrow> (jsstring \<times> CodeListFile) list \<Rightarrow> jsstring
     \<Rightarrow> BindCodeSystem option \<Rightarrow> MappingEntry list
     \<Rightarrow> (BindCodeSystem \<times> MappingEntry list) option" where
  "buildCS topLevelMap codeListMap csId existingCS ms =
     (let topLevel = map_of topLevelMap csId; codeList = map_of codeListMap csId
      in case codeList of
           Some cl \<Rightarrow>
             (case buildFromCodeList csId cl topLevel existingCS ms of
                (cs, ms1) \<Rightarrow>
                  (case topLevel of
                     Some entries \<Rightarrow> Some (buildFromTopLevel csId entries (Some cs) ms1)
                   | None \<Rightarrow> Some (cs, ms1)))
         | None \<Rightarrow>
             (case topLevel of
                Some entries \<Rightarrow>
                  (case buildFromTopLevel csId entries existingCS ms of
                     (cs, ms1) \<Rightarrow> Some (enrichById codeListMap csId cs, ms1))
              | None \<Rightarrow> None))"

definition processId ::
  "(jsstring \<times> TopLevelEntry list) list \<Rightarrow> (jsstring \<times> CodeListFile) list \<Rightarrow> RunState
     \<Rightarrow> jsstring \<Rightarrow> RunState" where
  "processId topLevelMap codeListMap st csId =
     (let existingCS = disk st csId
      in case buildCS topLevelMap codeListMap csId existingCS (mappings st) of
           None \<Rightarrow> st
         | Some (cs, ms) \<Rightarrow>
             if length (cs_concept cs) = 0
             then st\<lparr>mappings := ms, skipped := skipped st + 1\<rparr>
             else if existingCS \<noteq> None
             then st\<lparr>disk := (disk st)(csId \<mapsto> cs), mappings := ms, merged := merged st + 1\<rparr>
             else st\<lparr>disk := (disk st)(csId \<mapsto> cs), mappings := ms,
                     created := created st + 1\<rparr>)"

text \<open>
  \<^verbatim>\<open>[...allIds].sort()\<close> orders the ids by code units. \<^verbatim>\<open>mappings.sort\<close> is stable and
  compares the code-system ids and then the codes with \<^verbatim>\<open>localeCompare\<close>, the collation
  of the platform, which is a parameter of the model.
\<close>

definition allIds ::
  "(jsstring \<times> TopLevelEntry list) list \<Rightarrow> (jsstring \<times> CodeListFile) list \<Rightarrow> jsstring list" where
  "allIds topLevelMap codeListMap = sort (remdups (map fst topLevelMap @ map fst codeListMap))"

definition compareMappings ::
  "(jsstring \<Rightarrow> jsstring \<Rightarrow> int) \<Rightarrow> MappingEntry \<Rightarrow> MappingEntry \<Rightarrow> int" where
  "compareMappings localeCompare a b =
     (let cmp = localeCompare (codeSystemId a) (codeSystemId b)
      in if cmp \<noteq> 0 then cmp else localeCompare (bindCode a) (bindCode b))"

fun insertSorted :: "('a \<Rightarrow> 'a \<Rightarrow> int) \<Rightarrow> 'a \<Rightarrow> 'a list \<Rightarrow> 'a list" where
  "insertSorted cmp x [] = [x]"
| "insertSorted cmp x (y # ys) =
     (if cmp x y \<le> 0 then x # y # ys else y # insertSorted cmp x ys)"

definition stableSort :: "('a \<Rightarrow> 'a \<Rightarrow> int) \<Rightarrow> 'a list \<Rightarrow> 'a list" where
  "stableSort cmp xs = foldr (insertSorted cmp) xs []"

text \<open>
  The mapping file, and the result of a run: the directory, the mapping file and the
  counters of the summary. \<^verbatim>\<open>generatedAt\<close> is \<^verbatim>\<open>new Date().toISOString()\<close>, the time of
  the run, which the model takes as the parameter \<open>now\<close>. A run is one process, so
  \<^verbatim>\<open>mappings\<close> starts empty.
\<close>

record MappingFile =
  mf_generatedAt :: jsstring
  mf_description :: jsstring
  mf_totalMappings :: nat
  mf_mappings :: "MappingEntry list"

record RunResult =
  codesystems :: "jsstring \<Rightarrow> BindCodeSystem option"
  mappingFile :: MappingFile
  summary :: "nat \<times> nat \<times> nat"

definition runIds ::
  "(jsstring \<times> TopLevelEntry list) list \<Rightarrow> (jsstring \<times> CodeListFile) list
     \<Rightarrow> (jsstring \<Rightarrow> BindCodeSystem option) \<Rightarrow> RunState" where
  "runIds topLevelMap codeListMap codesystemsDir =
     foldl (processId topLevelMap codeListMap)
       \<lparr>disk = codesystemsDir, mappings = [], created = 0, merged = 0, skipped = 0\<rparr>
       (allIds topLevelMap codeListMap)"

definition main ::
  "(jsstring \<Rightarrow> jsstring \<Rightarrow> int) \<Rightarrow> jsstring \<Rightarrow> (jsstring \<times> TopLevelEntry list) list
     \<Rightarrow> (jsstring \<times> CodeListFile) list \<Rightarrow> (jsstring \<Rightarrow> BindCodeSystem option) \<Rightarrow> RunResult" where
  "main localeCompare now topLevelMap codeListMap codesystemsDir =
     (let st = runIds topLevelMap codeListMap codesystemsDir;
          sortedMappings = stableSort (compareMappings localeCompare) (mappings st)
      in \<lparr>codesystems = disk st,
          mappingFile =
            \<lparr>mf_generatedAt = now,
             mf_description = js ''Maps BIND codes to their original source codes. This file is private and excluded from version control.'',
             mf_totalMappings = length sortedMappings,
             mf_mappings = sortedMappings\<rparr>,
          summary = (created st, merged st, skipped st)\<rparr>)"

section \<open>What the loops compute\<close>

text \<open>
  The definitions of this section are not functions of the script: they name what its
  loops compute, and the lemmas below prove that they do. \<open>bindCodeCL\<close> and
  \<open>bindCodeTL\<close> are the derived code of an entry of either source.
\<close>

definition bindCodeCL :: "CodeListCode \<Rightarrow> jsstring" where
  "bindCodeCL code = deriveBINDCode (clc_code code) (Some (clc_display code))"

definition bindCodeTL :: "TopLevelEntry \<Rightarrow> jsstring" where
  "bindCodeTL entry = deriveBINDCode (tle_code entry) (tle_display entry)"

text \<open>
  The winner among the entries of one derived code, \<open>first\<close> being the first of them
  and \<open>later\<close> the entries after it, in the order of the source. In a code list the
  first entry gives way only when it carries the flag \<^verbatim>\<open>deprecated\<close>, to the first later
  entry with neither the flag nor the marker; in a top-level file it gives way when its
  display starts with the marker, to the first later entry that has a display without it.
\<close>

definition okCL :: "CodeListCode \<Rightarrow> bool" where
  "okCL code = (\<not> deprecatedCL code)"

definition winnerCL :: "CodeListCode \<Rightarrow> CodeListCode list \<Rightarrow> CodeListCode" where
  "winnerCL first later =
     (if flagged first
      then (case find okCL later of None \<Rightarrow> first | Some c \<Rightarrow> c)
      else first)"

definition okTL :: "TopLevelEntry \<Rightarrow> bool" where
  "okTL entry = (truthy (tle_display entry) \<and> \<not> markedTL entry)"

definition winnerTL :: "TopLevelEntry \<Rightarrow> TopLevelEntry list \<Rightarrow> TopLevelEntry" where
  "winnerTL first later =
     (if markedTL first
      then (case find okTL later of None \<Rightarrow> first | Some c \<Rightarrow> c)
      else first)"

text \<open>
  The entries of \<^verbatim>\<open>seenCodes\<close> that become a concept (\<open>keptCL\<close>, \<open>keptTL\<close>), the ones
  of a top-level file that get a mapping entry (\<open>recordedTL\<close>), the concepts a builder
  appends and the mapping entries it pushes.
\<close>

definition keptCL :: "jsstring set \<Rightarrow> jsstring \<times> CodeListCode \<Rightarrow> bool" where
  "keptCL existingCodes w = (\<not> deprecatedCL (snd w) \<and> fst w \<notin> existingCodes)"

definition keptTL :: "jsstring set \<Rightarrow> jsstring \<times> TopLevelEntry \<Rightarrow> bool" where
  "keptTL existingCodes w =
     (\<not> markedTL (snd w) \<and> truthy (tle_display (snd w)) \<and> fst w \<notin> existingCodes)"

definition recordedTL :: "jsstring \<times> TopLevelEntry \<Rightarrow> bool" where
  "recordedTL w = (markedTL (snd w) \<or> truthy (tle_display (snd w)))"

definition newConceptsCL ::
  "jsstring \<Rightarrow> CodeListFile \<Rightarrow> BindCodeSystem option \<Rightarrow> BindConcept list" where
  "newConceptsCL csId cl existingCS =
     map (conceptCL (toTitle csId))
       (filter (keptCL (existingCodesOf existingCS)) (seenCodesCL (codes cl)))"

definition newConceptsTL ::
  "jsstring \<Rightarrow> TopLevelEntry list \<Rightarrow> BindCodeSystem option \<Rightarrow> BindConcept list" where
  "newConceptsTL csId entries existingCS =
     map (conceptTL (toTitle csId))
       (filter (keptTL (existingCodesOf existingCS)) (seenCodesTL entries))"

definition pushedCL :: "jsstring \<Rightarrow> CodeListFile \<Rightarrow> MappingEntry list" where
  "pushedCL csId cl = map (mappingCL csId cl) (seenCodesCL (codes cl))"

definition pushedTL :: "jsstring \<Rightarrow> TopLevelEntry list \<Rightarrow> MappingEntry list" where
  "pushedTL csId entries = map (mappingTL csId) (filter recordedTL (seenCodesTL entries))"

definition keptCodesCL :: "CodeListFile \<Rightarrow> jsstring set" where
  "keptCodesCL cl = fst ` {w \<in> set (seenCodesCL (codes cl)). \<not> deprecatedCL (snd w)}"

definition keptCodesTL :: "TopLevelEntry list \<Rightarrow> jsstring set" where
  "keptCodesTL es =
     fst ` {w \<in> set (seenCodesTL es). \<not> markedTL (snd w) \<and> truthy (tle_display (snd w))}"

definition conceptsOf :: "BindCodeSystem option \<Rightarrow> BindConcept list" where
  "conceptsOf existingCS = (case existingCS of None \<Rightarrow> [] | Some ex \<Rightarrow> cs_concept ex)"

text \<open>
  For one id: the mapping entries of the loop body, the code system it builds
  (\<open>None\<close> when neither source has the id) and the content of the file after the body,
  which is written only when the code system has a concept.
\<close>

definition pushedFor ::
  "(jsstring \<times> TopLevelEntry list) list \<Rightarrow> (jsstring \<times> CodeListFile) list \<Rightarrow> jsstring
     \<Rightarrow> MappingEntry list" where
  "pushedFor topLevelMap codeListMap csId =
     (case map_of codeListMap csId of None \<Rightarrow> [] | Some cl \<Rightarrow> pushedCL csId cl)
     @ (case map_of topLevelMap csId of None \<Rightarrow> [] | Some entries \<Rightarrow> pushedTL csId entries)"

definition builtFor ::
  "(jsstring \<times> TopLevelEntry list) list \<Rightarrow> (jsstring \<times> CodeListFile) list \<Rightarrow> jsstring
     \<Rightarrow> BindCodeSystem option \<Rightarrow> BindCodeSystem option" where
  "builtFor topLevelMap codeListMap csId existingCS =
     (case map_of codeListMap csId of
        Some cl \<Rightarrow>
          (let cs = mergeConcepts csId existingCS (newConceptsCL csId cl existingCS)
           in case map_of topLevelMap csId of
                Some entries \<Rightarrow>
                  Some (mergeConcepts csId (Some cs) (newConceptsTL csId entries (Some cs)))
              | None \<Rightarrow> Some cs)
      | None \<Rightarrow>
          (case map_of topLevelMap csId of
             Some entries \<Rightarrow>
               Some (mergeConcepts csId existingCS (newConceptsTL csId entries existingCS))
           | None \<Rightarrow> None))"

definition writtenFor ::
  "(jsstring \<times> TopLevelEntry list) list \<Rightarrow> (jsstring \<times> CodeListFile) list \<Rightarrow> jsstring
     \<Rightarrow> BindCodeSystem option \<Rightarrow> BindCodeSystem option" where
  "writtenFor topLevelMap codeListMap csId existingCS =
     (case builtFor topLevelMap codeListMap csId existingCS of
        None \<Rightarrow> existingCS
      | Some cs \<Rightarrow> if cs_concept cs = [] then existingCS else Some cs)"

section \<open>Example inputs\<close>

text \<open>
  A collation to run \<open>main\<close> on examples with: the comparison by code units. The
  entries of the scenario of the specification.
\<close>

definition codeUnitCompare :: "jsstring \<Rightarrow> jsstring \<Rightarrow> int" where
  "codeUnitCompare a b = (if a < b then - 1 else if a = b then 0 else 1)"

definition woodFrameEntries :: "TopLevelEntry list" where
  "woodFrameEntries =
     [\<lparr>tle_code = js ''1'', tle_display = Some (js ''Wood Frame'')\<rparr>,
      \<lparr>tle_code = js ''1'', tle_display = Some (js ''DEPRECATED Wood Frame'')\<rparr>]"

text \<open>
  Duplicates in a code list: the first entry carries the flag and the second does not;
  and the first entry carries only the marker in its display. Duplicates in a top-level
  file: the marked entry comes first; and a marked entry followed by one with no display.
\<close>

definition flaggedFirst :: "CodeListCode list" where
  "flaggedFirst =
     [\<lparr>clc_code = js ''A'', clc_display = js ''Old'', clc_display_fr = None,
       clc_deprecated = Some True\<rparr>,
      \<lparr>clc_code = js ''A'', clc_display = js ''New'', clc_display_fr = None,
       clc_deprecated = None\<rparr>]"

definition markerFirst :: "CodeListCode list" where
  "markerFirst =
     [\<lparr>clc_code = js ''A'', clc_display = js ''DEPRECATED Foo'', clc_display_fr = None,
       clc_deprecated = None\<rparr>,
      \<lparr>clc_code = js ''A'', clc_display = js ''Foo'', clc_display_fr = None,
       clc_deprecated = None\<rparr>]"

definition markedFirstTL :: "TopLevelEntry list" where
  "markedFirstTL =
     [\<lparr>tle_code = js ''1'', tle_display = Some (js ''DEPRECATED Wood Frame'')\<rparr>,
      \<lparr>tle_code = js ''1'', tle_display = Some (js ''Wood Frame'')\<rparr>]"

definition markedThenBare :: "TopLevelEntry list" where
  "markedThenBare =
     [\<lparr>tle_code = js ''A'', tle_display = Some (js ''DEPRECATED Foo'')\<rparr>,
      \<lparr>tle_code = js ''A'', tle_display = None\<rparr>]"

text \<open>
  The code system that a run on the scenario writes for the id \<^verbatim>\<open>construction-type\<close>
  when no file exists.
\<close>

definition woodFrameCS :: BindCodeSystem where
  "woodFrameCS =
     \<lparr>cs_id = js ''construction-type'', cs_url = js ''https://bind.codes/construction-type'',
      cs_name = js ''ConstructionType'', cs_title = js ''Construction Type'',
      cs_status = Draft, cs_language = Some (js ''en''),
      cs_description = js ''Construction Type codes for insurance operations.'',
      cs_concept =
        [\<lparr>cpt_code = js ''wood-frame'', cpt_display = js ''Wood Frame'',
          cpt_definition = js ''Wood Frame'' @ [32, 8212, 32] @ js ''construction type code.'',
          cpt_designation = None\<rparr>]\<rparr>"

text \<open>
  A code list for the same id whose one entry is flagged as deprecated and has a French
  display, and a top-level file with one current and one marked entry.
\<close>

definition deprecatedWoodFrame :: CodeListFile where
  "deprecatedWoodFrame =
     \<lparr>code_list_name = js ''ConstructionType'',
      codes = [\<lparr>clc_code = js ''1'', clc_display = js ''Wood Frame'',
                clc_display_fr = Some (js ''Ossature de bois''),
                clc_deprecated = Some True\<rparr>]\<rparr>"








section \<open>Code derivation\<close>

lemma stripPrefix_while_eq: "stripPrefix_while s = Some (stripPrefix s)"
proof (induction s rule: stripPrefix.induct)
  case (1 result)
  show ?case
  proof (cases "hasPrefix result")
    case True
    with "1" show ?thesis
      by (subst stripPrefix_while.simps, subst stripPrefix.simps) simp
  next
    case False
    then show ?thesis
      by (subst stripPrefix_while.simps, subst stripPrefix.simps) simp
  qed
qed

lemma stripPrefix_no_prefix: "\<not> hasPrefix (stripPrefix s)"
proof (induction s rule: stripPrefix.induct)
  case (1 result)
  then show ?case
    by (subst stripPrefix.simps) simp
qed

text \<open>
  What \<^verbatim>\<open>displayToSlug\<close> hands to \<^verbatim>\<open>toLowerCase\<close> holds ASCII letters, digits and
  hyphens only, so the lowering of the model is the one of the platform there.
\<close>

lemma set_collapseRuns: "set (collapseRuns P s) \<subseteq> insert 45 {c \<in> set s. \<not> P c}"
proof (induction P s rule: collapseRuns.induct)
  case (1 P)
  show ?case by simp
next
  case (2 P c cs)
  have "set (dropWhile P cs) \<subseteq> set cs"
    by (auto dest: set_dropWhileD)
  with 2 show ?case by (auto split: if_splits)
qed

lemma slug_units_ascii:
  assumes "c \<in> set (collapseRuns isWhiteSpace (blankPunctuation s))"
  shows "isLower c \<or> isUpper c \<or> isDigit c \<or> c = 45"
proof -
  from assms set_collapseRuns [of isWhiteSpace "blankPunctuation s"]
  have "c = 45 \<or> (c \<in> set (blankPunctuation s) \<and> \<not> isWhiteSpace c)"
    by auto
  then show ?thesis
    by (auto simp: blankPunctuation_def isWhiteSpace_def split: if_splits)
qed

section \<open>The loops\<close>

text \<open>
  The first loop of a builder keeps the keys of \<^verbatim>\<open>seenCodes\<close> distinct and leaves, for
  every derived code, the winner among the entries of that code; the second loop, run
  on distinct keys, never meets a key of \<^verbatim>\<open>newBindCodes\<close>, so it is a filter and a map.
  From there: what one id contributes to a run, what a run leaves in the directory and
  in the array \<^verbatim>\<open>mappings\<close>, and that building again from what was built adds nothing.
\<close>

lemma distinct_seenStepCL:
  "distinct (map fst seen) \<Longrightarrow> distinct (map fst (seenStepCL seen c))"
  by (simp add: seenStepCL_def Let_def distinct_update split: option.splits)

lemma distinct_foldl_seenStepCL:
  "distinct (map fst seen) \<Longrightarrow> distinct (map fst (foldl seenStepCL seen cs))"
  by (induction cs arbitrary: seen) (simp_all add: distinct_seenStepCL)

lemma distinct_seenCodesCL: "distinct (map fst (seenCodesCL cs))"
  by (simp add: seenCodesCL_def distinct_foldl_seenStepCL)

lemma distinct_seenStepTL:
  "distinct (map fst seen) \<Longrightarrow> distinct (map fst (seenStepTL seen e))"
  by (simp add: seenStepTL_def Let_def distinct_update split: option.splits)

lemma distinct_foldl_seenStepTL:
  "distinct (map fst seen) \<Longrightarrow> distinct (map fst (foldl seenStepTL seen es))"
  by (induction es arbitrary: seen) (simp_all add: distinct_seenStepTL)

lemma distinct_seenCodesTL: "distinct (map fst (seenCodesTL es))"
  by (simp add: seenCodesTL_def distinct_foldl_seenStepTL)

lemma map_of_seenStepCL:
  "map_of (seenStepCL seen c) k =
     (if bindCodeCL c = k
      then (case map_of seen k of
              None \<Rightarrow> Some c
            | Some cur \<Rightarrow> if flagged cur \<and> okCL c then Some c else Some cur)
      else map_of seen k)"
  by (auto simp: seenStepCL_def bindCodeCL_def okCL_def deprecatedCL_def Let_def update_conv'
        split: option.splits)

lemma winnerCL_Cons:
  "winnerCL cur (c # cs) = (if flagged cur \<and> okCL c then c else winnerCL cur cs)"
  by (simp add: winnerCL_def)

lemma winnerCL_ok: "okCL c \<Longrightarrow> winnerCL c cs = c"
  by (simp add: winnerCL_def okCL_def deprecatedCL_def)

lemma map_of_foldl_seenStepCL:
  "map_of (foldl seenStepCL seen cs) k =
     (case map_of seen k of
        None \<Rightarrow> (case filter (\<lambda>c. bindCodeCL c = k) cs of
                   [] \<Rightarrow> None | e # later \<Rightarrow> Some (winnerCL e later))
      | Some cur \<Rightarrow> Some (winnerCL cur (filter (\<lambda>c. bindCodeCL c = k) cs)))"
proof (induction cs arbitrary: seen)
  case Nil
  show ?case by (simp add: winnerCL_def split: option.splits)
next
  case (Cons c cs)
  show ?case
    by (simp add: Cons.IH map_of_seenStepCL winnerCL_Cons winnerCL_ok split: option.splits)
qed

lemma map_of_seenCodesCL:
  "map_of (seenCodesCL cs) k =
     (case filter (\<lambda>c. bindCodeCL c = k) cs of
        [] \<Rightarrow> None | e # later \<Rightarrow> Some (winnerCL e later))"
  by (simp add: seenCodesCL_def map_of_foldl_seenStepCL)

lemma map_of_seenStepTL:
  "map_of (seenStepTL seen c) k =
     (if bindCodeTL c = k
      then (case map_of seen k of
              None \<Rightarrow> Some c
            | Some cur \<Rightarrow> if markedTL cur \<and> okTL c then Some c else Some cur)
      else map_of seen k)"
  by (auto simp: seenStepTL_def bindCodeTL_def okTL_def Let_def update_conv' split: option.splits)

lemma winnerTL_Cons:
  "winnerTL cur (c # cs) = (if markedTL cur \<and> okTL c then c else winnerTL cur cs)"
  by (simp add: winnerTL_def)

lemma winnerTL_ok: "okTL c \<Longrightarrow> winnerTL c cs = c"
  by (simp add: winnerTL_def okTL_def)

lemma map_of_foldl_seenStepTL:
  "map_of (foldl seenStepTL seen cs) k =
     (case map_of seen k of
        None \<Rightarrow> (case filter (\<lambda>c. bindCodeTL c = k) cs of
                   [] \<Rightarrow> None | e # later \<Rightarrow> Some (winnerTL e later))
      | Some cur \<Rightarrow> Some (winnerTL cur (filter (\<lambda>c. bindCodeTL c = k) cs)))"
proof (induction cs arbitrary: seen)
  case Nil
  show ?case by (simp add: winnerTL_def split: option.splits)
next
  case (Cons c cs)
  show ?case
    by (simp add: Cons.IH map_of_seenStepTL winnerTL_Cons winnerTL_ok split: option.splits)
qed

lemma map_of_seenCodesTL:
  "map_of (seenCodesTL cs) k =
     (case filter (\<lambda>c. bindCodeTL c = k) cs of
        [] \<Rightarrow> None | e # later \<Rightarrow> Some (winnerTL e later))"
  by (simp add: seenCodesTL_def map_of_foldl_seenStepTL)

lemma winnerCL_in: "winnerCL e later \<in> set (e # later)"
  by (auto simp: winnerCL_def find_Some_iff split: option.splits)

lemma winnerTL_in: "winnerTL e later \<in> set (e # later)"
  by (auto simp: winnerTL_def find_Some_iff split: option.splits)

lemma seenCodesCL_sound:
  assumes "w \<in> set (seenCodesCL cs)"
  shows "snd w \<in> set cs \<and> bindCodeCL (snd w) = fst w"
proof -
  have "(fst w, snd w) \<in> set (seenCodesCL cs)"
    using assms by simp
  then have "map_of (seenCodesCL cs) (fst w) = Some (snd w)"
    by (rule map_of_is_SomeI [OF distinct_seenCodesCL])
  then obtain e later where f: "filter (\<lambda>c. bindCodeCL c = fst w) cs = e # later"
    and s: "snd w = winnerCL e later"
    by (auto simp: map_of_seenCodesCL split: list.splits)
  from s winnerCL_in [of e later] have "snd w \<in> set (filter (\<lambda>c. bindCodeCL c = fst w) cs)"
    by (simp add: f)
  then show ?thesis by simp
qed

lemma seenCodesTL_sound:
  assumes "w \<in> set (seenCodesTL cs)"
  shows "snd w \<in> set cs \<and> bindCodeTL (snd w) = fst w"
proof -
  have "(fst w, snd w) \<in> set (seenCodesTL cs)"
    using assms by simp
  then have "map_of (seenCodesTL cs) (fst w) = Some (snd w)"
    by (rule map_of_is_SomeI [OF distinct_seenCodesTL])
  then obtain e later where f: "filter (\<lambda>c. bindCodeTL c = fst w) cs = e # later"
    and s: "snd w = winnerTL e later"
    by (auto simp: map_of_seenCodesTL split: list.splits)
  from s winnerTL_in [of e later] have "snd w \<in> set (filter (\<lambda>c. bindCodeTL c = fst w) cs)"
    by (simp add: f)
  then show ?thesis by simp
qed

lemma foldl_conceptStepCL:
  "distinct (map fst ws) \<Longrightarrow> fst ` set ws \<inter> nb = {} \<Longrightarrow>
   foldl (conceptStepCL csId cl ex) (nc, nb, ms) ws =
     (nc @ map (conceptCL (toTitle csId)) (filter (keptCL ex) ws),
      nb \<union> fst ` set (filter (keptCL ex) ws),
      ms @ map (mappingCL csId cl) ws)"
proof (induction ws arbitrary: nc nb ms)
  case Nil
  show ?case by simp
next
  case (Cons w ws)
  from Cons.prems have d: "distinct (map fst ws)" and n: "fst w \<notin> nb"
    and i1: "fst ` set ws \<inter> nb = {}" and i2: "fst ` set ws \<inter> insert (fst w) nb = {}"
    by auto
  show ?case
  proof (cases "keptCL ex w")
    case True
    then have "conceptStepCL csId cl ex (nc, nb, ms) w =
        (nc @ [conceptCL (toTitle csId) w], insert (fst w) nb, ms @ [mappingCL csId cl w])"
      using n by (simp add: conceptStepCL_def keptCL_def)
    then show ?thesis using True Cons.IH [OF d i2] by simp
  next
    case False
    then have "conceptStepCL csId cl ex (nc, nb, ms) w = (nc, nb, ms @ [mappingCL csId cl w])"
      by (auto simp: conceptStepCL_def keptCL_def)
    then show ?thesis using False Cons.IH [OF d i1] by simp
  qed
qed

lemma foldl_conceptStepTL:
  "distinct (map fst ws) \<Longrightarrow> fst ` set ws \<inter> nb = {} \<Longrightarrow>
   foldl (conceptStepTL csId ex) (nc, nb, ms) ws =
     (nc @ map (conceptTL (toTitle csId)) (filter (keptTL ex) ws),
      nb \<union> fst ` set (filter (keptTL ex) ws),
      ms @ map (mappingTL csId) (filter recordedTL ws))"
proof (induction ws arbitrary: nc nb ms)
  case Nil
  show ?case by simp
next
  case (Cons w ws)
  from Cons.prems have d: "distinct (map fst ws)" and n: "fst w \<notin> nb"
    and i1: "fst ` set ws \<inter> nb = {}" and i2: "fst ` set ws \<inter> insert (fst w) nb = {}"
    by auto
  show ?case
  proof (cases "keptTL ex w")
    case True
    then have "conceptStepTL csId ex (nc, nb, ms) w =
        (nc @ [conceptTL (toTitle csId) w], insert (fst w) nb, ms @ [mappingTL csId w])"
      using n by (simp add: conceptStepTL_def keptTL_def)
    moreover from True have "recordedTL w" by (simp add: keptTL_def recordedTL_def)
    ultimately show ?thesis using True Cons.IH [OF d i2] by simp
  next
    case False
    then have "conceptStepTL csId ex (nc, nb, ms) w =
        (nc, nb, if recordedTL w then ms @ [mappingTL csId w] else ms)"
      by (auto simp: conceptStepTL_def keptTL_def recordedTL_def)
    then show ?thesis using False Cons.IH [OF d i1] by simp
  qed
qed

lemma buildFromCodeList_eq:
  "buildFromCodeList csId cl t existingCS ms =
     (mergeConcepts csId existingCS (newConceptsCL csId cl existingCS), ms @ pushedCL csId cl)"
  by (simp add: buildFromCodeList_def newConceptsCL_def pushedCL_def
        foldl_conceptStepCL [OF distinct_seenCodesCL])

lemma buildFromTopLevel_eq:
  "buildFromTopLevel csId entries existingCS ms =
     (mergeConcepts csId existingCS (newConceptsTL csId entries existingCS),
      ms @ pushedTL csId entries)"
  by (simp add: buildFromTopLevel_def newConceptsTL_def pushedTL_def
        foldl_conceptStepTL [OF distinct_seenCodesTL])

lemma find_key_None: "map_of kvs k = None \<Longrightarrow> find (\<lambda>kv. fst kv = k) kvs = None"
  by (induction kvs) (auto split: if_splits)

lemma buildCS_eq:
  "buildCS TL CL i ex ms =
     map_option (\<lambda>cs. (cs, ms @ pushedFor TL CL i)) (builtFor TL CL i ex)"
  by (simp add: buildCS_def builtFor_def pushedFor_def Let_def buildFromCodeList_eq
        buildFromTopLevel_eq enrichById_def find_key_None split: option.splits)

lemma disk_processId:
  "disk (processId TL CL st i) = (disk st)(i := writtenFor TL CL i (disk st i))"
  by (auto simp: processId_def buildCS_eq writtenFor_def Let_def fun_eq_iff
        split: option.splits)

lemma mappings_processId:
  "mappings (processId TL CL st i) = mappings st @ pushedFor TL CL i"
proof (cases "builtFor TL CL i (disk st i)")
  case None
  then have "map_of CL i = None" "map_of TL i = None"
    by (auto simp: builtFor_def Let_def split: option.splits)
  then have "pushedFor TL CL i = []" by (simp add: pushedFor_def)
  with None show ?thesis by (simp add: processId_def buildCS_eq)
next
  case (Some cs)
  then show ?thesis by (simp add: processId_def buildCS_eq)
qed

lemma disk_foldl_processId:
  "distinct ids \<Longrightarrow>
   disk (foldl (processId TL CL) st ids) i =
     (if i \<in> set ids then writtenFor TL CL i (disk st i) else disk st i)"
proof (induction ids arbitrary: st)
  case Nil
  show ?case by simp
next
  case (Cons a ids)
  then show ?case by (simp add: disk_processId)
qed

lemma mappings_foldl_processId:
  "mappings (foldl (processId TL CL) st ids) =
     mappings st @ concat (map (pushedFor TL CL) ids)"
  by (induction ids arbitrary: st) (simp_all add: mappings_processId)

lemma set_allIds: "set (allIds TL CL) = fst ` set TL \<union> fst ` set CL"
  by (simp add: allIds_def)

lemma distinct_allIds: "distinct (allIds TL CL)"
  by (simp add: allIds_def)

lemma writtenFor_outside: "i \<notin> set (allIds TL CL) \<Longrightarrow> writtenFor TL CL i ex = ex"
proof -
  assume "i \<notin> set (allIds TL CL)"
  then have "map_of TL i = None" "map_of CL i = None"
    by (simp_all add: set_allIds map_of_eq_None_iff)
  then show ?thesis by (simp add: writtenFor_def builtFor_def)
qed

lemma disk_runIds: "disk (runIds TL CL D) i = writtenFor TL CL i (D i)"
  by (simp add: runIds_def disk_foldl_processId [OF distinct_allIds] writtenFor_outside)

lemma mappings_runIds:
  "mappings (runIds TL CL D) = concat (map (pushedFor TL CL) (allIds TL CL))"
  by (simp add: runIds_def mappings_foldl_processId)

lemma codesystems_main: "codesystems (main lc now TL CL D) i = writtenFor TL CL i (D i)"
  by (simp add: main_def Let_def disk_runIds)

lemma mappings_main:
  "mf_mappings (mappingFile (main lc now TL CL D)) =
     stableSort (compareMappings lc) (concat (map (pushedFor TL CL) (allIds TL CL)))"
  by (simp add: main_def Let_def mappings_runIds)

lemma existingCodesOf_conceptsOf: "existingCodesOf ex = set (map cpt_code (conceptsOf ex))"
  by (simp add: existingCodesOf_def conceptsOf_def split: option.splits)

lemma concept_mergeConcepts:
  "cs_concept (mergeConcepts i ex new) = conceptsOf ex @ new"
  by (simp add: mergeConcepts_def conceptsOf_def split: option.splits)

lemma language_mergeConcepts: "cs_language (mergeConcepts i ex new) \<noteq> None"
  by (simp add: mergeConcepts_def split: option.splits)

lemma mergeConcepts_Nil: "cs_language e \<noteq> None \<Longrightarrow> mergeConcepts i (Some e) [] = e"
  by (auto simp: mergeConcepts_def)

lemma codes_newConceptsCL:
  "map cpt_code (newConceptsCL i cl ex) =
     map fst (filter (keptCL (existingCodesOf ex)) (seenCodesCL (codes cl)))"
  by (simp add: newConceptsCL_def conceptCL_def comp_def)

lemma codes_newConceptsTL:
  "map cpt_code (newConceptsTL i es ex) =
     map fst (filter (keptTL (existingCodesOf ex)) (seenCodesTL es))"
  by (simp add: newConceptsTL_def conceptTL_def comp_def)

lemma distinct_map_fst_filter: "distinct (map fst ws) \<Longrightarrow> distinct (map fst (filter P ws))"
  by (induction ws) auto

lemma distinct_build_CL:
  assumes "distinct (map cpt_code (conceptsOf ex))"
  shows "distinct (map cpt_code (cs_concept (mergeConcepts i ex (newConceptsCL i cl ex))))"
proof -
  have a: "distinct (map cpt_code (newConceptsCL i cl ex))"
    by (simp add: codes_newConceptsCL distinct_map_fst_filter distinct_seenCodesCL)
  have b: "set (map cpt_code (conceptsOf ex)) \<inter> set (map cpt_code (newConceptsCL i cl ex)) = {}"
    unfolding codes_newConceptsCL existingCodesOf_conceptsOf [symmetric]
    by (auto simp: keptCL_def)
  from assms a b show ?thesis
    by (simp add: concept_mergeConcepts)
qed

lemma distinct_build_TL:
  assumes "distinct (map cpt_code (conceptsOf ex))"
  shows "distinct (map cpt_code (cs_concept (mergeConcepts i ex (newConceptsTL i es ex))))"
proof -
  have a: "distinct (map cpt_code (newConceptsTL i es ex))"
    by (simp add: codes_newConceptsTL distinct_map_fst_filter distinct_seenCodesTL)
  have b: "set (map cpt_code (conceptsOf ex)) \<inter> set (map cpt_code (newConceptsTL i es ex)) = {}"
    unfolding codes_newConceptsTL existingCodesOf_conceptsOf [symmetric]
    by (auto simp: keptTL_def)
  from assms a b show ?thesis
    by (simp add: concept_mergeConcepts)
qed

lemma existingCodesOf_merge:
  "existingCodesOf (Some (mergeConcepts i ex new)) = existingCodesOf ex \<union> cpt_code ` set new"
  by (simp add: existingCodesOf_conceptsOf concept_mergeConcepts conceptsOf_def)

lemma covered_after_CL:
  "keptCodesCL cl \<subseteq> existingCodesOf (Some (mergeConcepts i ex (newConceptsCL i cl ex)))"
proof
  fix k assume "k \<in> keptCodesCL cl"
  then obtain w where w: "w \<in> set (seenCodesCL (codes cl))" "\<not> deprecatedCL (snd w)" "k = fst w"
    by (auto simp: keptCodesCL_def)
  show "k \<in> existingCodesOf (Some (mergeConcepts i ex (newConceptsCL i cl ex)))"
  proof (cases "k \<in> existingCodesOf ex")
    case True
    then show ?thesis by (simp add: existingCodesOf_merge)
  next
    case False
    with w have "w \<in> set (filter (keptCL (existingCodesOf ex)) (seenCodesCL (codes cl)))"
      by (simp add: keptCL_def)
    then have "fst w \<in> set (map cpt_code (newConceptsCL i cl ex))"
      unfolding codes_newConceptsCL by (simp only: set_map) (rule imageI)
    with w show ?thesis by (simp add: existingCodesOf_merge)
  qed
qed

lemma covered_after_TL:
  "keptCodesTL es \<subseteq> existingCodesOf (Some (mergeConcepts i ex (newConceptsTL i es ex)))"
proof
  fix k assume "k \<in> keptCodesTL es"
  then obtain w where w: "w \<in> set (seenCodesTL es)" "\<not> markedTL (snd w)"
      "truthy (tle_display (snd w))" "k = fst w"
    by (auto simp: keptCodesTL_def)
  show "k \<in> existingCodesOf (Some (mergeConcepts i ex (newConceptsTL i es ex)))"
  proof (cases "k \<in> existingCodesOf ex")
    case True
    then show ?thesis by (simp add: existingCodesOf_merge)
  next
    case False
    with w have "w \<in> set (filter (keptTL (existingCodesOf ex)) (seenCodesTL es))"
      by (simp add: keptTL_def)
    then have "fst w \<in> set (map cpt_code (newConceptsTL i es ex))"
      unfolding codes_newConceptsTL by (simp only: set_map) (rule imageI)
    with w show ?thesis by (simp add: existingCodesOf_merge)
  qed
qed

lemma newConceptsCL_Nil: "keptCodesCL cl \<subseteq> existingCodesOf ex \<Longrightarrow> newConceptsCL i cl ex = []"
  by (auto simp: newConceptsCL_def keptCodesCL_def keptCL_def filter_empty_conv)

lemma newConceptsTL_Nil: "keptCodesTL es \<subseteq> existingCodesOf ex \<Longrightarrow> newConceptsTL i es ex = []"
  by (auto simp: newConceptsTL_def keptCodesTL_def keptTL_def filter_empty_conv)

lemma rebuild_CL:
  "keptCodesCL cl \<subseteq> existingCodesOf (Some cs) \<Longrightarrow> cs_language cs \<noteq> None \<Longrightarrow>
   mergeConcepts i (Some cs) (newConceptsCL i cl (Some cs)) = cs"
  by (simp add: newConceptsCL_Nil mergeConcepts_Nil)

lemma rebuild_TL:
  "keptCodesTL es \<subseteq> existingCodesOf (Some cs) \<Longrightarrow> cs_language cs \<noteq> None \<Longrightarrow>
   mergeConcepts i (Some cs) (newConceptsTL i es (Some cs)) = cs"
  by (simp add: newConceptsTL_Nil mergeConcepts_Nil)

lemma builtFor_fixed:
  assumes "builtFor TL CL i ex = Some cs"
  shows "builtFor TL CL i (Some cs) = Some cs"
proof (cases "map_of CL i")
  case None
  with assms obtain es where es: "map_of TL i = Some es"
    and cs: "cs = mergeConcepts i ex (newConceptsTL i es ex)"
    by (auto simp: builtFor_def split: option.splits)
  have "mergeConcepts i (Some cs) (newConceptsTL i es (Some cs)) = cs"
    unfolding cs by (rule rebuild_TL [OF covered_after_TL language_mergeConcepts])
  with None es show ?thesis by (simp add: builtFor_def)
next
  case (Some cl)
  define cs1 where "cs1 = mergeConcepts i ex (newConceptsCL i cl ex)"
  have c1: "keptCodesCL cl \<subseteq> existingCodesOf (Some cs1)"
    unfolding cs1_def by (rule covered_after_CL)
  show ?thesis
  proof (cases "map_of TL i")
    case None
    with Some assms have cs: "cs = cs1"
      by (simp add: builtFor_def cs1_def)
    have "mergeConcepts i (Some cs1) (newConceptsCL i cl (Some cs1)) = cs1"
      by (rule rebuild_CL [OF c1]) (simp add: cs1_def language_mergeConcepts)
    with None Some cs show ?thesis by (simp add: builtFor_def)
  next
    case (Some es)
    with \<open>map_of CL i = Some cl\<close> assms
    have cs: "cs = mergeConcepts i (Some cs1) (newConceptsTL i es (Some cs1))"
      by (simp add: builtFor_def cs1_def Let_def)
    have "existingCodesOf (Some cs1) \<subseteq> existingCodesOf (Some cs)"
      unfolding cs by (simp add: existingCodesOf_merge)
    with c1 have c2: "keptCodesCL cl \<subseteq> existingCodesOf (Some cs)" by blast
    have l: "cs_language cs \<noteq> None"
      unfolding cs by (rule language_mergeConcepts)
    have r1: "mergeConcepts i (Some cs) (newConceptsCL i cl (Some cs)) = cs"
      by (rule rebuild_CL [OF c2 l])
    have c3: "keptCodesTL es \<subseteq> existingCodesOf (Some cs)"
      unfolding cs by (rule covered_after_TL)
    have r2: "mergeConcepts i (Some cs) (newConceptsTL i es (Some cs)) = cs"
      by (rule rebuild_TL [OF c3 l])
    from Some \<open>map_of CL i = Some cl\<close> r1 r2 show ?thesis
      by (simp add: builtFor_def Let_def)
  qed
qed

lemma writtenFor_idem:
  "writtenFor TL CL i (writtenFor TL CL i ex) = writtenFor TL CL i ex"
proof (cases "builtFor TL CL i ex")
  case None
  then show ?thesis by (simp add: writtenFor_def)
next
  case (Some cs)
  show ?thesis
  proof (cases "cs_concept cs = []")
    case True
    with Some show ?thesis by (simp add: writtenFor_def)
  next
    case False
    with Some have "writtenFor TL CL i ex = Some cs" by (simp add: writtenFor_def)
    moreover have "writtenFor TL CL i (Some cs) = Some cs"
      using builtFor_fixed [OF Some] by (simp add: writtenFor_def)
    ultimately show ?thesis by simp
  qed
qed

lemma keys_seenCodesCL: "fst ` set (seenCodesCL cs) = bindCodeCL ` set cs"
proof -
  have "k \<in> fst ` set (seenCodesCL cs) \<longleftrightarrow> k \<in> bindCodeCL ` set cs" for k
  proof -
    have "k \<in> fst ` set (seenCodesCL cs) \<longleftrightarrow> map_of (seenCodesCL cs) k \<noteq> None"
      by (simp add: map_of_eq_None_iff)
    also have "\<dots> \<longleftrightarrow> filter (\<lambda>c. bindCodeCL c = k) cs \<noteq> []"
      by (simp add: map_of_seenCodesCL split: list.splits)
    also have "\<dots> \<longleftrightarrow> k \<in> bindCodeCL ` set cs"
      by (auto simp: filter_empty_conv)
    finally show ?thesis .
  qed
  then show ?thesis by blast
qed

lemma keys_seenCodesTL: "fst ` set (seenCodesTL es) = bindCodeTL ` set es"
proof -
  have "k \<in> fst ` set (seenCodesTL es) \<longleftrightarrow> k \<in> bindCodeTL ` set es" for k
  proof -
    have "k \<in> fst ` set (seenCodesTL es) \<longleftrightarrow> map_of (seenCodesTL es) k \<noteq> None"
      by (simp add: map_of_eq_None_iff)
    also have "\<dots> \<longleftrightarrow> filter (\<lambda>c. bindCodeTL c = k) es \<noteq> []"
      by (simp add: map_of_seenCodesTL split: list.splits)
    also have "\<dots> \<longleftrightarrow> k \<in> bindCodeTL ` set es"
      by (auto simp: filter_empty_conv)
    finally show ?thesis .
  qed
  then show ?thesis by blast
qed

section \<open>Evaluation\<close>

text \<open>
  The definitions that evaluate the string functions on a concrete string.
\<close>

lemmas str_eval = js_def startsWith_def hasPrefix_def replacePrefix_def isDigit_def isUpper_def
  isLower_def isWhiteSpace_def lowerUnit_def toLowerCase_def trim_def stripEdgeHyphens_def
  replaceAmpersand_def dropApostrophes_def blankPunctuation_def displayToSlug_def
  isNumericOnly_def matchesIgnoreCase_def stripMarker_def DEPRECATED_def DESUET_def
  cleanDisplay_def truthy_def deriveBINDCode_def stripPrefix.simps

section \<open>Claims on the code derivation\<close>

text \<open>
  C9. The three test vectors of the code derivation: \<^verbatim>\<open>derive("csio:AUTO", "Automobile")\<close>
  is \<^verbatim>\<open>"AUTO"\<close>, \<^verbatim>\<open>derive("047", "Fire & Theft")\<close> is \<^verbatim>\<open>"fire-and-theft"\<close> and
  \<^verbatim>\<open>derive("acord:0", "")\<close> is \<^verbatim>\<open>"0"\<close>, the numeric remainder.
\<close>

theorem deriveBINDCode_vectors:
  "deriveBINDCode (js ''csio:AUTO'') (Some (js ''Automobile'')) = js ''AUTO''
   \<and> deriveBINDCode (js ''047'') (Some (js ''Fire & Theft'')) = js ''fire-and-theft''
   \<and> deriveBINDCode (js ''acord:0'') (Some (js [])) = js ''0''"
  by (simp add: str_eval)

text \<open>
  C10. The loop of \<^verbatim>\<open>stripPrefix\<close> returns for every string: the loop as written,
  \<open>stripPrefix_while\<close>, yields a value, which is the one of the terminating recursion
  \<open>stripPrefix\<close> that the code derivation is built on and which starts with neither
  prefix; every iteration that goes on makes the string strictly shorter.
\<close>

theorem stripPrefix_terminates:
  "stripPrefix_while code = Some (stripPrefix code)
   \<and> \<not> hasPrefix (stripPrefix code)
   \<and> (hasPrefix code \<longrightarrow> length (replacePrefix code) < length code)"
  by (simp add: stripPrefix_while_eq stripPrefix_no_prefix replacePrefix_shorter)

theorem stripPrefix_terminates_witness:
  "hasPrefix (js ''csio:acord:X'')
   \<and> length (replacePrefix (js ''csio:acord:X'')) < length (js ''csio:acord:X'')
   \<and> stripPrefix_while (js ''csio:acord:X'') = Some (js ''X'')"
proof -
  have h: "hasPrefix (js ''csio:acord:X'')"
    by (simp add: str_eval)
  have e: "stripPrefix (js ''csio:acord:X'') = js ''X''"
    by (simp add: str_eval)
  from stripPrefix_terminates [of "js ''csio:acord:X''"] h e show ?thesis
    by simp
qed

section \<open>Claims on the provenance mapping\<close>

text \<open>
  The scenario of the specification: a top-level file with the entries
  \<^verbatim>\<open>{code:"1", display:"Wood Frame"}\<close> and \<^verbatim>\<open>{code:"1", display:"DEPRECATED Wood Frame"}\<close>.
  Both derive the code \<^verbatim>\<open>wood-frame\<close>, and the first stays in \<^verbatim>\<open>seenCodes\<close>.
\<close>

lemma seenCodes_woodFrame:
  "seenCodesTL woodFrameEntries =
     [(js ''wood-frame'', \<lparr>tle_code = js ''1'', tle_display = Some (js ''Wood Frame'')\<rparr>)]"
  by (simp add: woodFrameEntries_def seenCodesTL_def seenStepTL_def markedTL_def str_eval)

lemma cleanDisplay_woodFrame: "cleanDisplay (js ''Wood Frame'') = js ''Wood Frame''"
  by (simp add: str_eval)

lemma woodFrame_not_marked: "\<not> startsWith (js ''Wood Frame'') DEPRECATED"
  by (simp add: str_eval)

lemma woodFrame_truthy: "truthy (Some (js ''Wood Frame''))"
  by (simp add: str_eval)

lemma pushedTL_woodFrame:
  "pushedTL csId woodFrameEntries =
     [\<lparr>bindCode = js ''wood-frame'', sourceCode = js ''1'', sourceFile = csId @ js ''.json'',
       codeSystemId = csId\<rparr>]"
  by (simp add: pushedTL_def seenCodes_woodFrame recordedTL_def woodFrame_truthy mappingTL_def)

text \<open>
  C4, as the code has it. With no code list and no file on disk, a run on the scenario
  writes a code system with the one concept \<^verbatim>\<open>wood-frame\<close>, display \<^verbatim>\<open>Wood Frame\<close>, and
  the mapping file has exactly one entry, the one of the first upstream entry: the
  second entry is dropped in the first loop, which pushes nothing.
\<close>

theorem scenario_one_provenance_entry:
  "map_option cs_concept
     (codesystems (main lc now [(csId, woodFrameEntries)] [] (\<lambda>_. None)) csId) =
     Some [\<lparr>cpt_code = js ''wood-frame'', cpt_display = js ''Wood Frame'',
            cpt_definition = generateDefinition (js ''Wood Frame'') (toTitle csId),
            cpt_designation = None\<rparr>]
   \<and> mf_mappings (mappingFile (main lc now [(csId, woodFrameEntries)] [] (\<lambda>_. None))) =
     [\<lparr>bindCode = js ''wood-frame'', sourceCode = js ''1'', sourceFile = csId @ js ''.json'',
       codeSystemId = csId\<rparr>]"
proof -
  have a: "newConceptsTL csId woodFrameEntries None =
      [\<lparr>cpt_code = js ''wood-frame'', cpt_display = js ''Wood Frame'',
        cpt_definition = generateDefinition (js ''Wood Frame'') (toTitle csId),
        cpt_designation = None\<rparr>]"
    by (simp add: newConceptsTL_def seenCodes_woodFrame keptTL_def markedTL_def
          woodFrame_not_marked woodFrame_truthy existingCodesOf_def conceptTL_def
          cleanDisplay_woodFrame)
  have c: "allIds [(csId, woodFrameEntries)] [] = [csId]"
    by (simp add: allIds_def)
  show ?thesis
    by (simp add: codesystems_main mappings_main writtenFor_def builtFor_def pushedFor_def
          a c pushedTL_woodFrame concept_mergeConcepts conceptsOf_def stableSort_def)
qed

text \<open>
  C4 as stated fails: the run of the scenario for the id \<^verbatim>\<open>construction-type\<close> leaves one
  provenance entry, not two.
\<close>

theorem scenario_two_entries_counterexample:
  "length (mf_mappings (mappingFile
      (main codeUnitCompare (js ''2026-01-01T00:00:00.000Z'')
         [(js ''construction-type'', woodFrameEntries)] [] (\<lambda>_. None)))) = 1
   \<and> mf_totalMappings (mappingFile
      (main codeUnitCompare (js ''2026-01-01T00:00:00.000Z'')
         [(js ''construction-type'', woodFrameEntries)] [] (\<lambda>_. None))) \<noteq> 2"
proof -
  have c: "allIds [(js ''construction-type'', woodFrameEntries)] [] = [js ''construction-type'']"
    by (simp add: allIds_def)
  have d: "mappings (runIds [(js ''construction-type'', woodFrameEntries)] [] (\<lambda>_. None)) =
      pushedTL (js ''construction-type'') woodFrameEntries"
    by (simp add: mappings_runIds c pushedFor_def)
  show ?thesis
    by (simp add: main_def Let_def d pushedTL_woodFrame stableSort_def)
qed
text \<open>
  C3, as the code has it. A builder pushes one mapping entry for each entry of
  \<^verbatim>\<open>seenCodes\<close>, that is one for each derived code of the source, carrying the upstream
  code of the winner of that code, whether the winner becomes a concept, is already in
  the code system or is deprecated; \<^verbatim>\<open>buildFromTopLevel\<close> pushes none for a winner that
  has no display and is not marked. An entry that lost the deduplication has no mapping
  entry of its own.
\<close>

theorem provenance_per_winner:
  "snd (buildFromCodeList csId cl t ex ms) =
     ms @ map (mappingCL csId cl) (seenCodesCL (codes cl))
   \<and> snd (buildFromTopLevel csId es ex ms) =
     ms @ map (mappingTL csId) (filter recordedTL (seenCodesTL es))
   \<and> distinct (map fst (seenCodesCL (codes cl)))
   \<and> fst ` set (seenCodesCL (codes cl)) = bindCodeCL ` set (codes cl)
   \<and> distinct (map fst (seenCodesTL es))
   \<and> fst ` set (seenCodesTL es) = bindCodeTL ` set es"
  by (simp add: buildFromCodeList_eq buildFromTopLevel_eq pushedCL_def pushedTL_def
        distinct_seenCodesCL distinct_seenCodesTL keys_seenCodesCL keys_seenCodesTL)

text \<open>
  C3 as stated fails: \<^verbatim>\<open>buildFromTopLevel\<close> examines the two entries of the scenario and
  pushes one mapping entry, and it pushes none for a single entry without a display.
\<close>

theorem provenance_per_entry_counterexample:
  "length woodFrameEntries = 2
   \<and> length (snd (buildFromTopLevel (js ''construction-type'') woodFrameEntries None [])) = 1
   \<and> snd (buildFromTopLevel (js ''construction-type'')
            [\<lparr>tle_code = js ''A'', tle_display = None\<rparr>] None []) = []"
proof -
  have a: "length woodFrameEntries = 2"
    by (simp add: woodFrameEntries_def)
  have b: "length (snd (buildFromTopLevel (js ''construction-type'') woodFrameEntries None [])) = 1"
    by (simp add: buildFromTopLevel_eq pushedTL_woodFrame)
  have c: "snd (buildFromTopLevel (js ''construction-type'')
            [\<lparr>tle_code = js ''A'', tle_display = None\<rparr>] None []) = []"
    by (simp add: buildFromTopLevel_def seenCodesTL_def seenStepTL_def conceptStepTL_def
          markedTL_def truthy_def)
  from a b c show ?thesis by simp
qed

section \<open>Claims on the deduplication\<close>

text \<open>
  C6, as the code has it. \<^verbatim>\<open>seenCodes\<close> has one winner for each derived code. Let
  \<open>e\<close> be the first entry of a code and \<open>later\<close> the entries of that code after it.
  In a code list, when \<open>e\<close> carries the flag \<^verbatim>\<open>deprecated\<close> or is not deprecated at all:
  if \<open>e\<close> is deprecated, the first later entry that is not deprecated (by flag or
  marker) wins when there is one, and otherwise \<open>e\<close> is kept. In a top-level file: if
  the display of \<open>e\<close> starts with the marker, the first later entry with a non-empty
  display without the marker wins when there is one, and otherwise \<open>e\<close> is kept.
\<close>

theorem dedup_winner:
  "(filter (\<lambda>c. bindCodeCL c = k) cs = e # later \<and> (flagged e \<or> \<not> deprecatedCL e) \<longrightarrow>
      map_of (seenCodesCL cs) k =
        Some (if deprecatedCL e
              then (case find (\<lambda>c. \<not> deprecatedCL c) later of None \<Rightarrow> e | Some c \<Rightarrow> c)
              else e))
   \<and> (filter (\<lambda>x. bindCodeTL x = k') es = e' # later' \<longrightarrow>
      map_of (seenCodesTL es) k' =
        Some (if markedTL e'
              then (case find (\<lambda>x. truthy (tle_display x) \<and> \<not> markedTL x) later' of
                      None \<Rightarrow> e' | Some x \<Rightarrow> x)
              else e'))
   \<and> distinct (map fst (seenCodesCL cs))
   \<and> distinct (map fst (seenCodesTL es))"
proof -
  have o: "okCL = (\<lambda>c. \<not> deprecatedCL c)"
    by (simp add: fun_eq_iff okCL_def)
  have p: "okTL = (\<lambda>x. truthy (tle_display x) \<and> \<not> markedTL x)"
    by (simp add: fun_eq_iff okTL_def)
  have a: "winnerCL e later =
      (if deprecatedCL e
       then (case find (\<lambda>c. \<not> deprecatedCL c) later of None \<Rightarrow> e | Some c \<Rightarrow> c)
       else e)" if "flagged e \<or> \<not> deprecatedCL e"
    using that by (auto simp: winnerCL_def o deprecatedCL_def)
  have b: "winnerTL e' later' =
      (if markedTL e'
       then (case find (\<lambda>x. truthy (tle_display x) \<and> \<not> markedTL x) later' of
               None \<Rightarrow> e' | Some x \<Rightarrow> x)
       else e')"
    by (simp add: winnerTL_def p)
  show ?thesis
    using a b by (simp add: map_of_seenCodesCL map_of_seenCodesTL distinct_seenCodesCL
        distinct_seenCodesTL del: split_paired_All)
qed

lemma bindCode_eval:
  "bindCodeCL \<lparr>clc_code = js ''A'', clc_display = d, clc_display_fr = f, clc_deprecated = g\<rparr>
     = js ''A''"
  "bindCodeTL \<lparr>tle_code = js ''A'', tle_display = t\<rparr> = js ''A''"
  by (simp_all add: bindCodeCL_def bindCodeTL_def str_eval)

lemma bindCodeTL_woodFrame:
  "bindCodeTL \<lparr>tle_code = js ''1'', tle_display = Some (js ''DEPRECATED Wood Frame'')\<rparr>
     = js ''wood-frame''"
  "bindCodeTL \<lparr>tle_code = js ''1'', tle_display = Some (js ''Wood Frame'')\<rparr>
     = js ''wood-frame''"
  by (simp_all add: bindCodeTL_def str_eval)

theorem dedup_winner_witness:
  "filter (\<lambda>c. bindCodeCL c = js ''A'') flaggedFirst = flaggedFirst
   \<and> flagged (hd flaggedFirst)
   \<and> map_of (seenCodesCL flaggedFirst) (js ''A'') = Some (flaggedFirst ! 1)
   \<and> filter (\<lambda>x. bindCodeTL x = js ''wood-frame'') markedFirstTL = markedFirstTL
   \<and> map_of (seenCodesTL markedFirstTL) (js ''wood-frame'') = Some (markedFirstTL ! 1)"
proof -
  have f1: "filter (\<lambda>c. bindCodeCL c = js ''A'') flaggedFirst =
      hd flaggedFirst # tl flaggedFirst"
    by (simp add: flaggedFirst_def bindCode_eval)
  have h1: "flagged (hd flaggedFirst)"
    by (simp add: flaggedFirst_def flagged_def)
  have f2: "filter (\<lambda>x. bindCodeTL x = js ''wood-frame'') markedFirstTL =
      hd markedFirstTL # tl markedFirstTL"
    by (simp add: markedFirstTL_def bindCodeTL_woodFrame)
  have v1: "(if deprecatedCL (hd flaggedFirst)
       then (case find (\<lambda>c. \<not> deprecatedCL c) (tl flaggedFirst) of
               None \<Rightarrow> hd flaggedFirst | Some c \<Rightarrow> c)
       else hd flaggedFirst) = flaggedFirst ! 1"
    by (simp add: flaggedFirst_def deprecatedCL_def flagged_def str_eval)
  have v2: "(if markedTL (hd markedFirstTL)
       then (case find (\<lambda>x. truthy (tle_display x) \<and> \<not> markedTL x) (tl markedFirstTL) of
               None \<Rightarrow> hd markedFirstTL | Some x \<Rightarrow> x)
       else hd markedFirstTL) = markedFirstTL ! 1"
    by (simp add: markedFirstTL_def markedTL_def str_eval)
  have l1: "hd flaggedFirst # tl flaggedFirst = flaggedFirst"
    by (simp add: flaggedFirst_def)
  have l2: "hd markedFirstTL # tl markedFirstTL = markedFirstTL"
    by (simp add: markedFirstTL_def)
  from dedup_winner [of "js ''A''" flaggedFirst "hd flaggedFirst" "tl flaggedFirst"
      "js ''wood-frame''" markedFirstTL "hd markedFirstTL" "tl markedFirstTL"]
    f1 h1 f2 v1 v2 l1 l2
  show ?thesis by simp
qed

text \<open>
  C6 as stated fails in both builders. In a top-level file a marked first entry stays
  the winner when the later entry, which is not marked, has no display. In a code list
  a first entry that is deprecated by the marker in its display alone stays the winner
  although the later entry is not deprecated.
\<close>

theorem dedup_first_deprecated_counterexample:
  "bindCodeTL (markedThenBare ! 0) = bindCodeTL (markedThenBare ! 1)
   \<and> markedTL (markedThenBare ! 0) \<and> \<not> markedTL (markedThenBare ! 1)
   \<and> map_of (seenCodesTL markedThenBare) (js ''A'') = Some (markedThenBare ! 0)
   \<and> bindCodeCL (markerFirst ! 0) = bindCodeCL (markerFirst ! 1)
   \<and> deprecatedCL (markerFirst ! 0) \<and> \<not> deprecatedCL (markerFirst ! 1)
   \<and> map_of (seenCodesCL markerFirst) (js ''A'') = Some (markerFirst ! 0)"
proof -
  have a: "map_of (seenCodesTL markedThenBare) (js ''A'') = Some (markedThenBare ! 0)"
    by (simp add: map_of_seenCodesTL markedThenBare_def bindCode_eval winnerTL_def okTL_def
          truthy_def)
  have b: "map_of (seenCodesCL markerFirst) (js ''A'') = Some (markerFirst ! 0)"
    by (simp add: map_of_seenCodesCL markerFirst_def bindCode_eval winnerCL_def flagged_def)
  have c: "markedTL (markedThenBare ! 0) \<and> \<not> markedTL (markedThenBare ! 1)"
    by (simp add: markedThenBare_def markedTL_def str_eval)
  have d: "deprecatedCL (markerFirst ! 0) \<and> \<not> deprecatedCL (markerFirst ! 1)"
    by (simp add: markerFirst_def deprecatedCL_def flagged_def str_eval)
  from a b c d show ?thesis
    by (simp add: markedThenBare_def markerFirst_def bindCode_eval)
qed

section \<open>What a run writes\<close>

text \<open>
  The concepts of the code system written for an id: the concepts of the file, then
  those of the code list, then those of the top-level file, each built from a winner
  that is not deprecated. The sort of the mapping entries keeps their number and set.
\<close>

lemma writtenFor_cases:
  "writtenFor TL CL i ex = Some cs \<Longrightarrow> builtFor TL CL i ex = Some cs \<or> ex = Some cs"
  by (auto simp: writtenFor_def split: option.splits if_splits)

lemma conceptsOf_Some: "conceptsOf (Some cs) = cs_concept cs"
  by (simp add: conceptsOf_def)

lemma concept_builtFor:
  assumes "builtFor TL CL i ex = Some cs"
  shows "cs_concept cs =
     conceptsOf ex
     @ (case map_of CL i of None \<Rightarrow> [] | Some cl \<Rightarrow> newConceptsCL i cl ex)
     @ (case map_of TL i of
          None \<Rightarrow> []
        | Some es \<Rightarrow>
            newConceptsTL i es
              (case map_of CL i of
                 None \<Rightarrow> ex
               | Some cl \<Rightarrow> Some (mergeConcepts i ex (newConceptsCL i cl ex))))"
  using assms
  by (auto simp: builtFor_def Let_def concept_mergeConcepts conceptsOf_Some
      split: option.splits)

lemma distinct_builtFor:
  assumes "distinct (map cpt_code (conceptsOf ex))" and "builtFor TL CL i ex = Some cs"
  shows "distinct (map cpt_code (cs_concept cs))"
proof (cases "map_of CL i")
  case None
  with assms(2) obtain es where "cs = mergeConcepts i ex (newConceptsTL i es ex)"
    by (auto simp: builtFor_def split: option.splits)
  with assms(1) show ?thesis by (simp add: distinct_build_TL)
next
  case (Some cl)
  define cs1 where "cs1 = mergeConcepts i ex (newConceptsCL i cl ex)"
  have d1: "distinct (map cpt_code (conceptsOf (Some cs1)))"
    unfolding conceptsOf_Some cs1_def using assms(1) by (rule distinct_build_CL)
  show ?thesis
  proof (cases "map_of TL i")
    case None
    with Some assms(2) have "cs = cs1" by (simp add: builtFor_def cs1_def)
    with d1 show ?thesis by (simp add: conceptsOf_Some)
  next
    case (Some es)
    with \<open>map_of CL i = Some cl\<close> assms(2)
    have "cs = mergeConcepts i (Some cs1) (newConceptsTL i es (Some cs1))"
      by (simp add: builtFor_def cs1_def Let_def)
    with d1 show ?thesis by (simp add: distinct_build_TL)
  qed
qed

lemma distinct_writtenFor:
  assumes "distinct (map cpt_code (conceptsOf ex))" and "writtenFor TL CL i ex = Some cs"
  shows "distinct (map cpt_code (cs_concept cs))"
  using writtenFor_cases [OF assms(2)] assms(1) distinct_builtFor [of ex TL CL i cs]
  by (auto simp: conceptsOf_Some)

lemma prefix_builtFor:
  "builtFor TL CL i ex = Some cs \<Longrightarrow>
   take (length (conceptsOf ex)) (cs_concept cs) = conceptsOf ex"
  by (simp add: concept_builtFor)

lemma prefix_writtenFor:
  assumes "writtenFor TL CL i ex = Some cs"
  shows "take (length (conceptsOf ex)) (cs_concept cs) = conceptsOf ex"
  using writtenFor_cases [OF assms] prefix_builtFor [of TL CL i ex cs]
  by (auto simp: conceptsOf_Some)

lemma writtenFor_Some: "\<exists>cs. writtenFor TL CL i (Some old) = Some cs"
  by (simp add: writtenFor_def split: option.splits)

lemma origin_newConceptsCL:
  assumes "c \<in> set (newConceptsCL i cl ex)"
  shows "\<exists>w. w \<in> set (seenCodesCL (codes cl)) \<and> snd w \<in> set (codes cl)
             \<and> \<not> deprecatedCL (snd w) \<and> c = conceptCL (toTitle i) w"
proof -
  from assms obtain w where w: "w \<in> set (seenCodesCL (codes cl))"
      "keptCL (existingCodesOf ex) w" "c = conceptCL (toTitle i) w"
    by (auto simp: newConceptsCL_def)
  with seenCodesCL_sound [OF w(1)] show ?thesis
    by (intro exI [of _ w]) (simp add: keptCL_def)
qed

lemma origin_newConceptsTL:
  assumes "c \<in> set (newConceptsTL i es ex)"
  shows "\<exists>w. w \<in> set (seenCodesTL es) \<and> snd w \<in> set es
             \<and> \<not> markedTL (snd w) \<and> c = conceptTL (toTitle i) w"
proof -
  from assms obtain w where w: "w \<in> set (seenCodesTL es)"
      "keptTL (existingCodesOf ex) w" "c = conceptTL (toTitle i) w"
    by (auto simp: newConceptsTL_def)
  with seenCodesTL_sound [OF w(1)] show ?thesis
    by (intro exI [of _ w]) (simp add: keptTL_def)
qed




lemma length_insertSorted: "length (insertSorted cmp x xs) = Suc (length xs)"
  by (induction xs) auto

lemma length_stableSort: "length (stableSort cmp xs) = length xs"
  by (induction xs) (simp_all add: stableSort_def length_insertSorted)





lemma frame_builtFor:
  assumes "builtFor TL CL i (Some old) = Some cs"
  shows "cs\<lparr>cs_language := cs_language old, cs_concept := cs_concept old\<rparr> = old
       \<and> cs_language cs = Some (case cs_language old of None \<Rightarrow> js ''en'' | Some l \<Rightarrow> l)"
  using assms
  by (auto simp: builtFor_def Let_def mergeConcepts_def split: option.splits)

lemma frame_writtenFor:
  assumes "writtenFor TL CL i (Some old) = Some cs"
  shows "cs\<lparr>cs_language := cs_language old, cs_concept := cs_concept old\<rparr> = old
       \<and> (cs_language cs = cs_language old
            \<or> cs_language old = None \<and> cs_language cs = Some (js ''en''))"
  using writtenFor_cases [OF assms] frame_builtFor [of TL CL i old cs]
  by (auto split: option.splits)

section \<open>Claims on the written code systems\<close>

lemma newConceptsTL_woodFrame:
  "newConceptsTL csId woodFrameEntries None =
     [\<lparr>cpt_code = js ''wood-frame'', cpt_display = js ''Wood Frame'',
       cpt_definition = generateDefinition (js ''Wood Frame'') (toTitle csId),
       cpt_designation = None\<rparr>]"
  by (simp add: newConceptsTL_def seenCodes_woodFrame keptTL_def markedTL_def
        woodFrame_not_marked woodFrame_truthy existingCodesOf_def conceptTL_def
        cleanDisplay_woodFrame)

lemma title_constructionType:
  "toTitle (js ''construction-type'') = js ''Construction Type''"
  "toPascalCase (js ''construction-type'') = js ''ConstructionType''"
  by (simp_all add: toTitle_def toPascalCase_def capitalize_def upperUnit_def str_eval)

lemma run_woodFrame:
  "codesystems (main lc now [(js ''construction-type'', woodFrameEntries)] [] (\<lambda>_. None))
     (js ''construction-type'') = Some woodFrameCS"
proof -
  have "mergeConcepts (js ''construction-type'') None
      (newConceptsTL (js ''construction-type'') woodFrameEntries None) = woodFrameCS"
    by (simp add: mergeConcepts_def newConceptsTL_woodFrame title_constructionType
          generateDefinition_def cleanDisplay_woodFrame woodFrameCS_def)
       (simp add: str_eval)
  moreover have "cs_concept woodFrameCS \<noteq> []"
    by (simp add: woodFrameCS_def)
  ultimately show ?thesis
    by (simp add: codesystems_main writtenFor_def builtFor_def)
qed

text \<open>
  C8. If the code system on disk, when there is one, has pairwise distinct concept
  codes, the code system a run leaves on disk for that id has pairwise distinct concept
  codes: no appended concept repeats a code of the file or of another appended concept.
\<close>

theorem codes_distinct:
  "distinct (map cpt_code (conceptsOf (D i))) \<Longrightarrow>
   codesystems (main lc now TL CL D) i = Some cs \<Longrightarrow>
   distinct (map cpt_code (cs_concept cs))"
  unfolding codesystems_main by (rule distinct_writtenFor)

theorem codes_distinct_witness:
  "distinct (map cpt_code (conceptsOf None))
   \<and> codesystems (main codeUnitCompare (js ''2026-01-01T00:00:00.000Z'')
        [(js ''construction-type'', woodFrameEntries)] [] (\<lambda>_. None))
        (js ''construction-type'') = Some woodFrameCS
   \<and> distinct (map cpt_code (cs_concept woodFrameCS))"
proof -
  have a: "distinct (map cpt_code (conceptsOf ((\<lambda>_. None) (js ''construction-type''))))"
    by (simp add: conceptsOf_def)
  note b = run_woodFrame [of codeUnitCompare "js ''2026-01-01T00:00:00.000Z''"]
  from codes_distinct [OF a b] a b show ?thesis by simp
qed

text \<open>
  C2. A run keeps every concept of a code system that exists before it, unchanged and
  in place: the concepts of the file are a prefix of the concepts written, so a run
  only appends. Of the other fields of the code system a run touches the language
  alone, which it sets to \<^verbatim>\<open>en\<close> when the file has none. \<^verbatim>\<open>enrichWithCodeList\<close>, the
  one function that assigns to a concept, keeps the number and order of the concepts
  and the code, display and definition of each, and a concept it changes had no
  designation and gets a non-empty one.
\<close>

theorem append_only:
  "(D i = Some old \<longrightarrow>
      (\<exists>cs. codesystems (main lc now TL CL D) i = Some cs
            \<and> take (length (cs_concept old)) (cs_concept cs) = cs_concept old
            \<and> cs\<lparr>cs_language := cs_language old, cs_concept := cs_concept old\<rparr> = old
            \<and> (cs_language cs = cs_language old
                 \<or> cs_language old = None \<and> cs_language cs = Some (js ''en''))))
   \<and> list_all2
       (\<lambda>c c'. cpt_code c' = cpt_code c \<and> cpt_display c' = cpt_display c
                \<and> cpt_definition c' = cpt_definition c
                \<and> (c' = c \<or> (\<not> hasDesignation c
                              \<and> (\<exists>ds. ds \<noteq> [] \<and> c' = c\<lparr>cpt_designation := Some ds\<rparr>))))
       (cs_concept cs') (cs_concept (enrichWithCodeList cs' cl))"
proof -
  have a: "\<exists>cs. codesystems (main lc now TL CL D) i = Some cs
            \<and> take (length (cs_concept old)) (cs_concept cs) = cs_concept old
            \<and> cs\<lparr>cs_language := cs_language old, cs_concept := cs_concept old\<rparr> = old
            \<and> (cs_language cs = cs_language old
                 \<or> cs_language old = None \<and> cs_language cs = Some (js ''en''))"
    if "D i = Some old"
  proof -
    obtain cs where cs: "writtenFor TL CL i (Some old) = Some cs"
      using writtenFor_Some by blast
    from prefix_writtenFor [OF cs]
    have "take (length (cs_concept old)) (cs_concept cs) = cs_concept old"
      by (simp add: conceptsOf_Some)
    with cs that frame_writtenFor [OF cs] show ?thesis
      by (simp add: codesystems_main)
  qed
  have f: "frenchDesignation d = Some ds \<Longrightarrow> ds \<noteq> []" for d ds
    by (auto simp: frenchDesignation_def split: if_splits)
  have b: "cpt_code (enrichConcept l dl c) = cpt_code c
      \<and> cpt_display (enrichConcept l dl c) = cpt_display c
      \<and> cpt_definition (enrichConcept l dl c) = cpt_definition c
      \<and> (enrichConcept l dl c = c \<or> (\<not> hasDesignation c
            \<and> (\<exists>ds. ds \<noteq> [] \<and> enrichConcept l dl c = c\<lparr>cpt_designation := Some ds\<rparr>)))"
    for l dl c
    by (auto simp: enrichConcept_def Let_def dest: f split: option.splits)
  have "list_all2
       (\<lambda>c c'. cpt_code c' = cpt_code c \<and> cpt_display c' = cpt_display c
                \<and> cpt_definition c' = cpt_definition c
                \<and> (c' = c \<or> (\<not> hasDesignation c
                              \<and> (\<exists>ds. ds \<noteq> [] \<and> c' = c\<lparr>cpt_designation := Some ds\<rparr>))))
       xs (map (enrichConcept l dl) xs)" for xs l dl
    by (induction xs) (simp_all add: b)
  then show ?thesis
    using a by (simp add: enrichWithCodeList_def)
qed

theorem append_only_witness:
  "((\<lambda>_. None)(js ''construction-type'' \<mapsto> woodFrameCS)) (js ''construction-type'')
     = Some woodFrameCS
   \<and> (\<exists>cs. codesystems (main codeUnitCompare (js ''2026-01-01T00:00:00.000Z'')
               [(js ''construction-type'', woodFrameEntries)] []
               ((\<lambda>_. None)(js ''construction-type'' \<mapsto> woodFrameCS)))
               (js ''construction-type'') = Some cs
            \<and> take (length (cs_concept woodFrameCS)) (cs_concept cs) = cs_concept woodFrameCS
            \<and> cs\<lparr>cs_language := cs_language woodFrameCS, cs_concept := cs_concept woodFrameCS\<rparr>
                = woodFrameCS)"
proof -
  have h: "((\<lambda>_. None)(js ''construction-type'' \<mapsto> woodFrameCS)) (js ''construction-type'')
     = Some woodFrameCS"
    by simp
  from append_only [of "(\<lambda>_. None)(js ''construction-type'' \<mapsto> woodFrameCS)"
      "js ''construction-type''" woodFrameCS codeUnitCompare "js ''2026-01-01T00:00:00.000Z''"
      "[(js ''construction-type'', woodFrameEntries)]" "[]"] h
  show ?thesis by blast
qed

section \<open>Claims on deprecated entries\<close>

lemma seenCodes_deprecatedWoodFrame:
  "seenCodesCL (codes deprecatedWoodFrame) =
     [(js ''wood-frame'', hd (codes deprecatedWoodFrame))]"
  by (simp add: deprecatedWoodFrame_def seenCodesCL_def seenStepCL_def str_eval)

lemma deprecated_deprecatedWoodFrame: "deprecatedCL (hd (codes deprecatedWoodFrame))"
  by (simp add: deprecatedWoodFrame_def deprecatedCL_def flagged_def)

lemma newConceptsCL_deprecatedWoodFrame: "newConceptsCL csId deprecatedWoodFrame ex = []"
  unfolding newConceptsCL_def seenCodes_deprecatedWoodFrame
  by (simp add: keptCL_def deprecated_deprecatedWoodFrame)


lemma fresh_constructionType:
  "mergeConcepts (js ''construction-type'') None [] = woodFrameCS\<lparr>cs_concept := []\<rparr>"
  by (simp add: mergeConcepts_def title_constructionType woodFrameCS_def) (simp add: js_def)

















section \<open>Claims on the enrichment and on a second run\<close>

lemma newConceptsTL_cong:
  "existingCodesOf ex = existingCodesOf ex' \<Longrightarrow>
   newConceptsTL csId es ex = newConceptsTL csId es ex'"
  by (simp add: newConceptsTL_def)

lemma run_deprecatedWoodFrame:
  "codesystems (main lc now [(js ''construction-type'', woodFrameEntries)]
       [(js ''construction-type'', deprecatedWoodFrame)] (\<lambda>_. None))
     (js ''construction-type'') = Some woodFrameCS"
proof -
  have e: "existingCodesOf (Some (woodFrameCS\<lparr>cs_concept := []\<rparr>)) = existingCodesOf None"
    by (simp add: existingCodesOf_def)
  have n: "newConceptsTL (js ''construction-type'') woodFrameEntries
      (Some (woodFrameCS\<lparr>cs_concept := []\<rparr>)) = cs_concept woodFrameCS"
    unfolding newConceptsTL_cong [OF e] newConceptsTL_woodFrame
    by (simp add: woodFrameCS_def generateDefinition_def cleanDisplay_woodFrame
          title_constructionType) (simp add: str_eval)
  have "mergeConcepts (js ''construction-type'') (Some (woodFrameCS\<lparr>cs_concept := []\<rparr>))
      (cs_concept woodFrameCS) = woodFrameCS"
    by (simp add: mergeConcepts_def woodFrameCS_def)
  moreover have "cs_concept woodFrameCS \<noteq> []"
    by (simp add: woodFrameCS_def)
  ultimately show ?thesis
    by (simp add: codesystems_main writtenFor_def builtFor_def
          newConceptsCL_deprecatedWoodFrame fresh_constructionType n)
qed








lemma existingCodesOf_empty:
  "conceptsOf ex = [] \<Longrightarrow> existingCodesOf ex = {}"
  by (simp add: existingCodesOf_conceptsOf)

lemma kept_covered_built:
  assumes "builtFor TL CL i ex = Some cs"
  shows "(map_of CL i = Some cl \<longrightarrow> keptCodesCL cl \<subseteq> existingCodesOf (Some cs))
       \<and> (map_of TL i = Some es \<longrightarrow> keptCodesTL es \<subseteq> existingCodesOf (Some cs))"
proof (cases "map_of CL i")
  case None
  with assms show ?thesis
    by (auto simp: builtFor_def split: option.splits dest: subsetD [OF covered_after_TL])
next
  case (Some cl')
  define cs1 where "cs1 = mergeConcepts i ex (newConceptsCL i cl' ex)"
  have c1: "keptCodesCL cl' \<subseteq> existingCodesOf (Some cs1)"
    unfolding cs1_def by (rule covered_after_CL)
  show ?thesis
  proof (cases "map_of TL i")
    case None
    with Some assms have "cs = cs1" by (simp add: builtFor_def cs1_def)
    with c1 Some None show ?thesis by auto
  next
    case (Some es')
    with \<open>map_of CL i = Some cl'\<close> assms
    have cs: "cs = mergeConcepts i (Some cs1) (newConceptsTL i es' (Some cs1))"
      by (simp add: builtFor_def cs1_def Let_def)
    have "existingCodesOf (Some cs1) \<subseteq> existingCodesOf (Some cs)"
      unfolding cs by (simp add: existingCodesOf_merge)
    with c1 have "keptCodesCL cl' \<subseteq> existingCodesOf (Some cs)" by blast
    moreover have "keptCodesTL es' \<subseteq> existingCodesOf (Some cs)"
      unfolding cs by (rule covered_after_TL)
    ultimately show ?thesis
      using Some \<open>map_of CL i = Some cl'\<close> by auto
  qed
qed

lemma kept_covered_written:
  "(map_of CL i = Some cl \<longrightarrow> keptCodesCL cl \<subseteq> existingCodesOf (writtenFor TL CL i ex))
   \<and> (map_of TL i = Some es \<longrightarrow> keptCodesTL es \<subseteq> existingCodesOf (writtenFor TL CL i ex))"
proof (cases "builtFor TL CL i ex")
  case None
  then have "map_of CL i = None" "map_of TL i = None"
    by (auto simp: builtFor_def Let_def split: option.splits)
  then show ?thesis by simp
next
  case (Some cs)
  show ?thesis
  proof (cases "cs_concept cs = []")
    case False
    with Some have "writtenFor TL CL i ex = Some cs" by (simp add: writtenFor_def)
    with kept_covered_built [OF Some] show ?thesis by simp
  next
    case True
    with Some have w: "writtenFor TL CL i ex = ex" by (simp add: writtenFor_def)
    from True have "conceptsOf ex = []"
      using prefix_builtFor [OF Some] by simp
    then have "existingCodesOf ex = {}" by (rule existingCodesOf_empty)
    moreover from True have "existingCodesOf (Some cs) = {}"
      by (simp add: existingCodesOf_def)
    ultimately show ?thesis
      using kept_covered_built [OF Some, of cl es] w by simp
  qed
qed

lemma keptCodesTL_woodFrame: "keptCodesTL woodFrameEntries = {js ''wood-frame''}"
  by (auto simp: keptCodesTL_def seenCodes_woodFrame markedTL_def woodFrame_not_marked
        woodFrame_truthy)

text \<open>
  C1, as the code has it. A second run on the same two source maps, started from the
  directory the first run left, leaves every code system as the first run left it, so
  it appends no concept; and it writes the same mapping entries in the same order, a
  mapping file that is the first but for \<^verbatim>\<open>generatedAt\<close>, the time of the run. For every
  id, the code system the first run left holds the code of every winner that is not
  deprecated (and, in a top-level file, has a display), so the second run skips each.
\<close>

theorem second_run_same_records:
  "codesystems (main lc t2 TL CL (codesystems (main lc t1 TL CL D))) =
     codesystems (main lc t1 TL CL D)
   \<and> mappingFile (main lc t2 TL CL (codesystems (main lc t1 TL CL D))) =
     (mappingFile (main lc t1 TL CL D))\<lparr>mf_generatedAt := t2\<rparr>
   \<and> (map_of CL i = Some cl \<longrightarrow>
        keptCodesCL cl \<subseteq> existingCodesOf (codesystems (main lc t1 TL CL D) i))
   \<and> (map_of TL i = Some es \<longrightarrow>
        keptCodesTL es \<subseteq> existingCodesOf (codesystems (main lc t1 TL CL D) i))"
proof -
  have a: "codesystems (main lc t2 TL CL (codesystems (main lc t1 TL CL D))) =
     codesystems (main lc t1 TL CL D)"
    by (rule ext) (simp add: codesystems_main writtenFor_idem)
  have b: "mappingFile (main lc t2 TL CL (codesystems (main lc t1 TL CL D))) =
     (mappingFile (main lc t1 TL CL D))\<lparr>mf_generatedAt := t2\<rparr>"
    by (simp add: main_def Let_def mappings_runIds)
  from a b kept_covered_written [of CL i cl TL ex es for ex] show ?thesis
    by (simp add: codesystems_main)
qed

theorem second_run_same_records_witness:
  "map_of [(js ''construction-type'', deprecatedWoodFrame)] (js ''construction-type'')
     = Some deprecatedWoodFrame
   \<and> map_of [(js ''construction-type'', woodFrameEntries)] (js ''construction-type'')
     = Some woodFrameEntries
   \<and> keptCodesTL woodFrameEntries = {js ''wood-frame''}
   \<and> js ''wood-frame'' \<in> existingCodesOf
        (codesystems (main codeUnitCompare (js ''2026-01-01T00:00:00.000Z'')
           [(js ''construction-type'', woodFrameEntries)]
           [(js ''construction-type'', deprecatedWoodFrame)] (\<lambda>_. None))
           (js ''construction-type''))
   \<and> codesystems (main codeUnitCompare (js ''2026-01-02T00:00:00.000Z'')
        [(js ''construction-type'', woodFrameEntries)]
        [(js ''construction-type'', deprecatedWoodFrame)]
        (codesystems (main codeUnitCompare (js ''2026-01-01T00:00:00.000Z'')
           [(js ''construction-type'', woodFrameEntries)]
           [(js ''construction-type'', deprecatedWoodFrame)] (\<lambda>_. None)))) =
      codesystems (main codeUnitCompare (js ''2026-01-01T00:00:00.000Z'')
           [(js ''construction-type'', woodFrameEntries)]
           [(js ''construction-type'', deprecatedWoodFrame)] (\<lambda>_. None))"
  using second_run_same_records [of codeUnitCompare "js ''2026-01-02T00:00:00.000Z''"
      "[(js ''construction-type'', woodFrameEntries)]"
      "[(js ''construction-type'', deprecatedWoodFrame)]"
      "js ''2026-01-01T00:00:00.000Z''" "\<lambda>_. None" "js ''construction-type''"
      deprecatedWoodFrame woodFrameEntries]
  by (simp add: keptCodesTL_woodFrame)

text \<open>
  C1 as stated fails: the mapping file is part of what a run writes, and the second run,
  a day after the first, writes another \<^verbatim>\<open>generatedAt\<close>.
\<close>

theorem second_run_timestamp_counterexample:
  "mappingFile (main codeUnitCompare (js ''2026-01-02T00:00:00.000Z'')
        [(js ''construction-type'', woodFrameEntries)] []
        (codesystems (main codeUnitCompare (js ''2026-01-01T00:00:00.000Z'')
           [(js ''construction-type'', woodFrameEntries)] [] (\<lambda>_. None))))
   \<noteq> mappingFile (main codeUnitCompare (js ''2026-01-01T00:00:00.000Z'')
        [(js ''construction-type'', woodFrameEntries)] [] (\<lambda>_. None))"
proof
  assume "mappingFile (main codeUnitCompare (js ''2026-01-02T00:00:00.000Z'')
        [(js ''construction-type'', woodFrameEntries)] []
        (codesystems (main codeUnitCompare (js ''2026-01-01T00:00:00.000Z'')
           [(js ''construction-type'', woodFrameEntries)] [] (\<lambda>_. None))))
   = mappingFile (main codeUnitCompare (js ''2026-01-01T00:00:00.000Z'')
        [(js ''construction-type'', woodFrameEntries)] [] (\<lambda>_. None))"
  then have "mf_generatedAt (mappingFile (main codeUnitCompare (js ''2026-01-02T00:00:00.000Z'')
        [(js ''construction-type'', woodFrameEntries)] []
        (codesystems (main codeUnitCompare (js ''2026-01-01T00:00:00.000Z'')
           [(js ''construction-type'', woodFrameEntries)] [] (\<lambda>_. None)))))
   = mf_generatedAt (mappingFile (main codeUnitCompare (js ''2026-01-01T00:00:00.000Z'')
        [(js ''construction-type'', woodFrameEntries)] [] (\<lambda>_. None)))"
    by simp
  then show False
    by (simp add: main_def Let_def js_def)
qed

end
